theory Spec2Isabelle
  imports Complex_Main "HOL-Library.Word"
begin

unbundle bit_operations_syntax

section \<open>Bytes, text encodings and formatting\<close>

type_synonym byte = "8 word"
type_synonym bytes = "byte list"
type_synonym w32 = "32 word"

text \<open>\<^verbatim>\<open>bytes.hex()\<close>: two lowercase hexadecimal digits per byte.\<close>

definition hexdigits :: string where
  "hexdigits = ''0123456789abcdef''"

definition hex_byte :: "byte \<Rightarrow> string" where
  "hex_byte b = [hexdigits ! (unat b div 16), hexdigits ! (unat b mod 16)]"

definition hex :: "bytes \<Rightarrow> string" where
  "hex bs = concat (map hex_byte bs)"

text \<open>\<^verbatim>\<open>bytes.fromhex\<close>, the decoding that the verification scenario of the
  specification applies to a \<^verbatim>\<open>data\<close> element. \<^const>\<open>None\<close> is \<^verbatim>\<open>ValueError\<close>.\<close>

definition hexval :: "char \<Rightarrow> nat option" where
  "hexval c =
     (let n = (of_char c :: nat) in
      if 48 \<le> n \<and> n \<le> 57 then Some (n - 48)
      else if 97 \<le> n \<and> n \<le> 102 then Some (n - 87)
      else if 65 \<le> n \<and> n \<le> 70 then Some (n - 55)
      else None)"

fun unhex :: "string \<Rightarrow> bytes option" where
  "unhex [] = Some []"
| "unhex [c] = None"
| "unhex (c # d # rest) =
     (case (hexval c, hexval d, unhex rest) of
        (Some h, Some l, Some bs) \<Rightarrow> Some (of_nat (16 * h + l) # bs)
      | _ \<Rightarrow> None)"

text \<open>\<^verbatim>\<open>base64.b64encode(chunk).decode()\<close>.\<close>

definition b64chars :: string where
  "b64chars = ''ABCDEFGHIJKLMNOPQRSTUVWXYZabcdefghijklmnopqrstuvwxyz0123456789+/''"

fun b64encode :: "bytes \<Rightarrow> string" where
  "b64encode [] = []"
| "b64encode [a] =
     (let n = unat a * 65536 in
      [b64chars ! (n div 262144), b64chars ! (n div 4096 mod 64), CHR ''='', CHR ''=''])"
| "b64encode [a, b] =
     (let n = unat a * 65536 + unat b * 256 in
      [b64chars ! (n div 262144), b64chars ! (n div 4096 mod 64),
       b64chars ! (n div 64 mod 64), CHR ''=''])"
| "b64encode (a # b # c # rest) =
     (let n = unat a * 65536 + unat b * 256 + unat c in
      [b64chars ! (n div 262144), b64chars ! (n div 4096 mod 64),
       b64chars ! (n div 64 mod 64), b64chars ! (n mod 64)] @ b64encode rest)"

text \<open>\<^verbatim>\<open>str.encode()\<close> (UTF-8). A header value reaches the application decoded as
  Latin-1, so every character is a code point below 256: one byte below 128, two bytes
  from 128 on.\<close>

definition encode :: "string \<Rightarrow> bytes" where
  "encode s = concat (map (\<lambda>c. let n = (of_char c :: nat) in
                 if n < 128 then [of_nat n]
                 else [of_nat (192 + n div 64), of_nat (128 + n mod 64)]) s)"

text \<open>\<^verbatim>\<open>str.startswith\<close> and \<^verbatim>\<open>str.replace\<close>: every non-overlapping occurrence of
  \<open>old\<close>, scanning from the left, is replaced.\<close>

definition startswith :: "string \<Rightarrow> string \<Rightarrow> bool" where
  "startswith s p = (take (length p) s = p)"

function replace :: "string \<Rightarrow> string \<Rightarrow> string \<Rightarrow> string" where
  "replace s old new =
     (if old = [] then new @ concat (map (\<lambda>c. c # new) s)
      else if s = [] then []
      else if startswith s old then new @ replace (drop (length old) s) old new
      else hd s # replace (tl s) old new)"
  by pat_completeness auto
termination
  by (relation "measure (\<lambda>(s, old, new). length s)") auto

declare replace.simps [simp del]

text \<open>\<^verbatim>\<open>str(n)\<close> and the format specification \<^verbatim>\<open>{n:,}\<close> for integers.\<close>

definition digit :: "nat \<Rightarrow> char" where
  "digit d = ''0123456789'' ! d"

function str_nat :: "nat \<Rightarrow> string" where
  "str_nat n = (if n < 10 then [digit n] else str_nat (n div 10) @ [digit (n mod 10)])"
  by pat_completeness auto
termination
  by (relation "measure id") auto

declare str_nat.simps [simp del]

definition str_int :: "int \<Rightarrow> string" where
  "str_int i = (if i < 0 then CHR ''-'' # str_nat (nat (- i)) else str_nat (nat i))"

function group3 :: "string \<Rightarrow> string" where
  "group3 s =
     (if length s \<le> 3 then s
      else group3 (take (length s - 3) s) @ CHR '','' # drop (length s - 3) s)"
  by pat_completeness auto
termination
  by (relation "measure length") auto

declare group3.simps [simp del]

definition format_commas :: "int \<Rightarrow> string" where
  "format_commas i =
     (if i < 0 then CHR ''-'' # group3 (str_nat (nat (- i))) else group3 (str_nat (nat i)))"

section \<open>SHA-256 (\<^verbatim>\<open>hashlib.sha256\<close>), after FIPS 180-4\<close>

text \<open>The constants of the standard are the first 32 bits of the fractional parts of the
  cube roots (the 64 round constants) and of the square roots (the initial hash value) of
  the first primes. \<open>iroot k e n lo hi\<close> narrows \<open>lo\<close> and \<open>hi\<close> around the \<open>e\<close>-th root
  of \<open>n\<close> by \<open>k\<close> bisections.\<close>

fun iroot :: "nat \<Rightarrow> nat \<Rightarrow> int \<Rightarrow> int \<Rightarrow> int \<Rightarrow> int" where
  "iroot 0 e n lo hi = lo"
| "iroot (Suc k) e n lo hi =
     (let mid = (lo + hi) div 2 in
      if mid ^ e \<le> n then iroot k e n mid hi else iroot k e n lo mid)"

definition frac_root :: "nat \<Rightarrow> int \<Rightarrow> w32" where
  "frac_root e p = word_of_int (iroot 48 e (p * 2 ^ (32 * e)) 0 (2 ^ 40))"

definition is_prime :: "int \<Rightarrow> bool" where
  "is_prime n = (1 < n \<and> list_all (\<lambda>d. n mod d \<noteq> 0) [2..n - 1])"

definition primes64 :: "int list" where
  "primes64 = filter is_prime [2..311]"

definition K256 :: "w32 list" where
  "K256 = map (frac_root 3) primes64"

definition H256 :: "w32 list" where
  "H256 = map (frac_root 2) (take 8 primes64)"

definition rotr :: "nat \<Rightarrow> w32 \<Rightarrow> w32" where
  "rotr n x = drop_bit n x OR push_bit (32 - n) x"

definition Ch :: "w32 \<Rightarrow> w32 \<Rightarrow> w32 \<Rightarrow> w32" where
  "Ch x y z = (x AND y) XOR (NOT x AND z)"

definition Maj :: "w32 \<Rightarrow> w32 \<Rightarrow> w32 \<Rightarrow> w32" where
  "Maj x y z = (x AND y) XOR (x AND z) XOR (y AND z)"

definition Sigma0 :: "w32 \<Rightarrow> w32" where
  "Sigma0 x = rotr 2 x XOR rotr 13 x XOR rotr 22 x"

definition Sigma1 :: "w32 \<Rightarrow> w32" where
  "Sigma1 x = rotr 6 x XOR rotr 11 x XOR rotr 25 x"

definition sigma0 :: "w32 \<Rightarrow> w32" where
  "sigma0 x = rotr 7 x XOR rotr 18 x XOR drop_bit 3 x"

definition sigma1 :: "w32 \<Rightarrow> w32" where
  "sigma1 x = rotr 17 x XOR rotr 19 x XOR drop_bit 10 x"

definition be64 :: "64 word \<Rightarrow> bytes" where
  "be64 w = [ucast (drop_bit 56 w), ucast (drop_bit 48 w), ucast (drop_bit 40 w),
             ucast (drop_bit 32 w), ucast (drop_bit 24 w), ucast (drop_bit 16 w),
             ucast (drop_bit 8 w), ucast w]"

text \<open>Padding: the byte \<open>0x80\<close>, zero bytes up to 56 modulo 64, and the length of the
  message in bits as a 64-bit big-endian integer.\<close>

definition pad :: "bytes \<Rightarrow> bytes" where
  "pad m = m @ [0x80] @ replicate ((119 - length m mod 64) mod 64) 0
             @ be64 (of_nat (8 * length m))"

definition be32 :: "w32 \<Rightarrow> bytes" where
  "be32 w = [ucast (drop_bit 24 w), ucast (drop_bit 16 w), ucast (drop_bit 8 w), ucast w]"

fun words_of :: "bytes \<Rightarrow> w32 list" where
  "words_of (a # b # c # d # rest) =
     (push_bit 24 (ucast a) OR push_bit 16 (ucast b) OR push_bit 8 (ucast c) OR ucast d)
       # words_of rest"
| "words_of _ = []"

fun schedule :: "nat \<Rightarrow> w32 list \<Rightarrow> w32 list" where
  "schedule 0 w = w"
| "schedule (Suc n) w =
     schedule n (w @ [sigma1 (w ! (length w - 2)) + w ! (length w - 7)
                      + sigma0 (w ! (length w - 15)) + w ! (length w - 16)])"

type_synonym hstate = "w32 \<times> w32 \<times> w32 \<times> w32 \<times> w32 \<times> w32 \<times> w32 \<times> w32"

definition round256 :: "hstate \<Rightarrow> w32 \<times> w32 \<Rightarrow> hstate" where
  "round256 s kw = (case s of (a, b, c, d, e, f, g, h) \<Rightarrow>
     let t1 = h + Sigma1 e + Ch e f g + fst kw + snd kw;
         t2 = Sigma0 a + Maj a b c
     in (t1 + t2, a, b, c, d + t1, e, f, g))"

definition compress :: "hstate \<Rightarrow> bytes \<Rightarrow> hstate" where
  "compress s block =
     (case (s, foldl round256 s (zip K256 (schedule 48 (words_of block)))) of
        ((a, b, c, d, e, f, g, h), (a', b', c', d', e', f', g', h')) \<Rightarrow>
          (a + a', b + b', c + c', d + d', e + e', f + f', g + g', h + h'))"

fun blocks :: "nat \<Rightarrow> bytes \<Rightarrow> bytes list" where
  "blocks 0 m = []"
| "blocks (Suc n) m = take 64 m # blocks n (drop 64 m)"

definition digest_of :: "hstate \<Rightarrow> bytes" where
  "digest_of s = (case s of (a, b, c, d, e, f, g, h) \<Rightarrow>
     be32 a @ be32 b @ be32 c @ be32 d @ be32 e @ be32 f @ be32 g @ be32 h)"

definition sha256 :: "bytes \<Rightarrow> bytes" where
  "sha256 m =
     (let p = pad m in
      digest_of (foldl compress
             (H256 ! 0, H256 ! 1, H256 ! 2, H256 ! 3, H256 ! 4, H256 ! 5, H256 ! 6, H256 ! 7)
             (blocks (length p div 64) p)))"

text \<open>\<^verbatim>\<open>hashlib.sha256(b).hexdigest()\<close>.\<close>

definition hexdigest :: "bytes \<Rightarrow> string" where
  "hexdigest m = hex (sha256 m)"

section \<open>The backing store (\<^verbatim>\<open>database.py\<close>)\<close>

text \<open>The rows of the four tables, with the columns that the adapters read and write.\<close>

record api_key_row =
  key_id :: string
  key_user_id :: string
  key_hash :: string
  key_active :: bool
  last_used_at :: "string option"

record user_row =
  usr_id :: string
  usr_email :: string

record subscription_row =
  sub_user_id :: string
  sub_tier :: string
  sub_chunks_limit :: int
  sub_rate_limit :: int
  sub_active :: bool

record usage_log_row =
  log_user_id :: string
  log_api_key_id :: string
  log_endpoint :: string
  log_chunks_generated :: int
  log_response_time_ms :: int
  log_status_code :: int

text \<open>Every \<^verbatim>\<open>.execute()\<close> is one request to the store. The store keeps the trace of the
  requests it received; \<open>raises db k\<close> tells whether request number \<open>k\<close> (counted from 0)
  raises instead of answering, which leaves the tables as they are. The two stored
  procedures are not part of the repository: the \<^verbatim>\<open>data\<close> of their answers
  (\<^const>\<open>None\<close> is Python's \<^verbatim>\<open>None\<close>) is a parameter of the store.\<close>

datatype call =
    SelectApiKeys string
  | SelectUsers string
  | SelectSubscriptions string
  | UpdateLastUsed string
  | RpcMonthlyUsage string
  | RpcRateLimit string int
  | InsertUsageLog

record store =
  api_keys :: "api_key_row list"
  users :: "user_row list"
  subscriptions :: "subscription_row list"
  usage_logs :: "usage_log_row list"
  monthly_usage_rpc :: "string \<Rightarrow> int option"
  rate_limit_rpc :: "string \<Rightarrow> int \<Rightarrow> bool option"
  raises :: "nat \<Rightarrow> bool"
  calls :: "call list"

definition execute :: "call \<Rightarrow> store \<Rightarrow> bool \<times> store" where
  "execute c db = (raises db (length (calls db)), db\<lparr>calls := calls db @ [c]\<rparr>)"

text \<open>The process-wide settings: \<open>supabase\<close> tells whether the client handle was created
  (\<^verbatim>\<open>supabase is not None\<close>), \<open>DATABASE_AVAILABLE\<close> whether the import of the database
  module succeeded. The clock readings are inputs: \<open>utcnow\<close> is
  \<^verbatim>\<open>datetime.utcnow().isoformat()\<close> and \<open>elapsed_ms\<close> is
  \<^verbatim>\<open>int((time.time() - start_time) * 1000)\<close>.\<close>

record env =
  DATABASE_AVAILABLE :: bool
  supabase :: bool
  utcnow :: string
  elapsed_ms :: int

text \<open>The dictionary returned by a successful key verification.\<close>

record principal =
  user_id :: string
  api_key_id :: string
  email :: string
  tier :: string
  chunks_limit :: int
  rate_limit :: int

definition hash_api_key :: "string \<Rightarrow> string" where
  "hash_api_key key = hexdigest (encode key)"

text \<open>The four store requests of \<^verbatim>\<open>database.verify_api_key\<close>. Each returns \<^const>\<open>None\<close>
  when the request raises.\<close>

definition select_api_keys :: "string \<Rightarrow> store \<Rightarrow> api_key_row list option \<times> store" where
  "select_api_keys h db =
     (let (failed, db') = execute (SelectApiKeys h) db in
      if failed then (None, db')
      else (Some (filter (\<lambda>r. key_hash r = h \<and> key_active r) (api_keys db')), db'))"

definition select_users :: "string \<Rightarrow> store \<Rightarrow> user_row list option \<times> store" where
  "select_users uid db =
     (let (failed, db') = execute (SelectUsers uid) db in
      if failed then (None, db')
      else (Some (filter (\<lambda>r. usr_id r = uid) (users db')), db'))"

definition select_subscriptions ::
  "string \<Rightarrow> store \<Rightarrow> subscription_row list option \<times> store" where
  "select_subscriptions uid db =
     (let (failed, db') = execute (SelectSubscriptions uid) db in
      if failed then (None, db')
      else (Some (filter (\<lambda>r. sub_user_id r = uid \<and> sub_active r) (subscriptions db')), db'))"

definition update_last_used :: "string \<Rightarrow> string \<Rightarrow> store \<Rightarrow> unit option \<times> store" where
  "update_last_used kid now db =
     (let (failed, db') = execute (UpdateLastUsed kid) db in
      if failed then (None, db')
      else (Some (),
            db'\<lparr>api_keys := map (\<lambda>r. if key_id r = kid then r\<lparr>last_used_at := Some now\<rparr> else r)
                               (api_keys db')\<rparr>))"

text \<open>\<^verbatim>\<open>database.verify_api_key\<close>. The whole body after the digest is one \<^verbatim>\<open>try\<close>
  block whose handler returns \<^verbatim>\<open>None\<close>.\<close>

definition db_verify_api_key :: "env \<Rightarrow> string \<Rightarrow> store \<Rightarrow> principal option \<times> store" where
  "db_verify_api_key ev key db =
     (if \<not> supabase ev then (None, db)
      else
        let kh = hash_api_key key in
        case select_api_keys kh db of
          (None, db1) \<Rightarrow> (None, db1)
        | (Some [], db1) \<Rightarrow> (None, db1)
        | (Some (key_record # _), db1) \<Rightarrow>
            let uid = key_user_id key_record in
            (case select_users uid db1 of
               (None, db2) \<Rightarrow> (None, db2)
             | (Some [], db2) \<Rightarrow> (None, db2)
             | (Some (user # _), db2) \<Rightarrow>
                 (case select_subscriptions uid db2 of
                    (None, db3) \<Rightarrow> (None, db3)
                  | (Some [], db3) \<Rightarrow> (None, db3)
                  | (Some (subscription # _), db3) \<Rightarrow>
                      (case update_last_used (key_id key_record) (utcnow ev) db3 of
                         (None, db4) \<Rightarrow> (None, db4)
                       | (Some _, db4) \<Rightarrow>
                           (Some \<lparr>user_id = uid,
                                  api_key_id = key_id key_record,
                                  email = usr_email user,
                                  tier = sub_tier subscription,
                                  chunks_limit = sub_chunks_limit subscription,
                                  rate_limit = sub_rate_limit subscription\<rparr>, db4)))))"

text \<open>\<^verbatim>\<open>get_monthly_usage\<close>: \<^verbatim>\<open>result.data or 0\<close>, and 0 without a client or when the
  request raises.\<close>

definition get_monthly_usage :: "env \<Rightarrow> string \<Rightarrow> store \<Rightarrow> int \<times> store" where
  "get_monthly_usage ev uid db =
     (if \<not> supabase ev then (0, db)
      else
        let (failed, db') = execute (RpcMonthlyUsage uid) db in
        if failed then (0, db')
        else (case monthly_usage_rpc db' uid of None \<Rightarrow> 0 | Some n \<Rightarrow> n, db'))"

text \<open>\<^verbatim>\<open>check_rate_limit\<close>: \<^verbatim>\<open>result.data or False\<close>, and \<^verbatim>\<open>True\<close> without a client or
  when the request raises.\<close>

definition check_rate_limit :: "env \<Rightarrow> string \<Rightarrow> int \<Rightarrow> store \<Rightarrow> bool \<times> store" where
  "check_rate_limit ev uid limit db =
     (if \<not> supabase ev then (True, db)
      else
        let (failed, db') = execute (RpcRateLimit uid limit) db in
        if failed then (True, db')
        else (case rate_limit_rpc db' uid limit of None \<Rightarrow> False | Some b \<Rightarrow> b, db'))"

text \<open>\<^verbatim>\<open>log_usage\<close>: one row appended to \<^verbatim>\<open>usage_logs\<close>; nothing without a client, and
  a raising request is swallowed.\<close>

definition log_usage ::
  "env \<Rightarrow> string \<Rightarrow> string \<Rightarrow> string \<Rightarrow> int \<Rightarrow> int \<Rightarrow> int \<Rightarrow> store \<Rightarrow> store" where
  "log_usage ev uid kid endpoint chunks_generated response_time_ms status db =
     (if \<not> supabase ev then db
      else
        let (failed, db') = execute InsertUsageLog db in
        if failed then db'
        else db'\<lparr>usage_logs := usage_logs db' @
                 [\<lparr>log_user_id = uid, log_api_key_id = kid, log_endpoint = endpoint,
                   log_chunks_generated = chunks_generated,
                   log_response_time_ms = response_time_ms,
                   log_status_code = status\<rparr>]\<rparr>)"

section \<open>The HTTP layer (\<^verbatim>\<open>main.py\<close>)\<close>

subsection \<open>Exceptions and failed requests\<close>

text \<open>The exceptions that the handlers can meet: whatever \<^verbatim>\<open>next(gen)\<close> raises (with
  its text), subscripting an object that is not a dictionary, a missing key, an index out
  of range, and a model constructor that rejects its arguments.\<close>

datatype exn =
    GeneratorRaised string
  | NotSubscriptable
  | KeyError
  | IndexError
  | ValidationError

text \<open>The \<^verbatim>\<open>detail\<close> of an \<^verbatim>\<open>HTTPException\<close>: a fixed text, or one of the two texts
  built from \<^verbatim>\<open>str(e)\<close> of a caught exception.\<close>

datatype detail =
    Text string
  | Generation_failed exn
  | Stats_generation_failed exn

text \<open>A request fails with an \<^verbatim>\<open>HTTPException\<close>, with the framework's rejection of a
  request body (status 422), or with an exception that no handler catches (status 500).\<close>

datatype failure =
    HTTPException int detail
  | RequestValidationError
  | Unhandled exn

fun status_code :: "failure \<Rightarrow> int" where
  "status_code (HTTPException s d) = s"
| "status_code RequestValidationError = 422"
| "status_code (Unhandled e) = 500"

subsection \<open>Authentication: \<^verbatim>\<open>verify_api_key\<close>\<close>

definition demo_principal :: principal where
  "demo_principal = \<lparr>user_id = ''demo-user'', api_key_id = ''demo-key'',
     email = ''demo@goldenseed.io'', tier = ''free'', chunks_limit = 10000, rate_limit = 100\<rparr>"

definition missing_key :: failure where
  "missing_key = HTTPException 401 (Text ''Missing API key. Get one at https://goldenseed.io'')"

definition invalid_format :: failure where
  "invalid_format = HTTPException 401 (Text ''Invalid auth format. Use: Bearer gs_your_key'')"

definition invalid_demo_key :: failure where
  "invalid_demo_key =
     HTTPException 403 (Text ''Invalid API key. Use gs_demo_key_12345 for testing.'')"

definition invalid_key :: failure where
  "invalid_key = HTTPException 403 (Text ''Invalid or expired API key'')"

definition rate_limit_exceeded :: "int \<Rightarrow> failure" where
  "rate_limit_exceeded limit =
     HTTPException 429 (Text (''Rate limit exceeded. Limit: '' @ str_int limit
                              @ '' requests/minute''))"

definition quota_exceeded :: "int \<Rightarrow> failure" where
  "quota_exceeded limit =
     HTTPException 429 (Text (''Monthly chunk limit exceeded. Limit: '' @ format_commas limit
                              @ '' chunks. Upgrade at https://goldenseed.io/pricing''))"

text \<open>The part of \<^verbatim>\<open>verify_api_key\<close> after a user was found: the rate limit, then the
  monthly usage.\<close>

definition check_limits :: "env \<Rightarrow> principal \<Rightarrow> store \<Rightarrow> (failure + principal) \<times> store" where
  "check_limits ev user db1 =
     (let (within_limit, db2) = check_rate_limit ev (user_id user) (rate_limit user) db1 in
      if \<not> within_limit then (Inl (rate_limit_exceeded (rate_limit user)), db2)
      else
        let (current_usage, db3) = get_monthly_usage ev (user_id user) db2 in
        if current_usage \<ge> chunks_limit user
        then (Inl (quota_exceeded (chunks_limit user)), db3)
        else (Inr user, db3))"

text \<open>The key that is looked up: \<^verbatim>\<open>authorization.replace("Bearer ", "")\<close>.\<close>

definition api_key_of :: "string \<Rightarrow> string" where
  "api_key_of authorization = replace authorization ''Bearer '' []"

text \<open>\<^verbatim>\<open>verify_api_key\<close> of \<^verbatim>\<open>main.py\<close>. The header is \<^const>\<open>None\<close> when the request
  has none; \<^verbatim>\<open>not authorization\<close> also holds of the empty string.\<close>

definition verify_api_key ::
  "env \<Rightarrow> string option \<Rightarrow> store \<Rightarrow> (failure + principal) \<times> store" where
  "verify_api_key ev authorization db =
     (case authorization of
        None \<Rightarrow> (Inl missing_key, db)
      | Some a \<Rightarrow>
          if a = [] then (Inl missing_key, db)
          else if \<not> startswith a ''Bearer '' then (Inl invalid_format, db)
          else
            let api_key = api_key_of a in
            if \<not> DATABASE_AVAILABLE ev then
              (if api_key = ''gs_demo_key_12345'' then (Inr demo_principal, db)
               else (Inl invalid_demo_key, db))
            else
              (case db_verify_api_key ev api_key db of
                 (None, db1) \<Rightarrow> (Inl invalid_key, db1)
               | (Some user, db1) \<Rightarrow> check_limits ev user db1))"

subsection \<open>Request and response models\<close>

record GenerateRequest =
  seed :: int
  chunks :: int
  format :: string
  skip :: int

text \<open>The constructor of \<^verbatim>\<open>GenerateRequest\<close> with its field constraints.\<close>

definition mk_GenerateRequest :: "int \<Rightarrow> int \<Rightarrow> string \<Rightarrow> int \<Rightarrow> exn + GenerateRequest" where
  "mk_GenerateRequest s c f k =
     (if 0 \<le> s \<and> 1 \<le> c \<and> c \<le> 10000 \<and> f \<in> {''hex'', ''json'', ''binary''} \<and> 0 \<le> k
      then Inr \<lparr>seed = s, chunks = c, format = f, skip = k\<rparr>
      else Inl ValidationError)"

text \<open>What the three output formats build: a list of strings, or (for \<^verbatim>\<open>json\<close>) a list
  of lists of integers.\<close>

datatype payload =
    Strings "string list"
  | IntLists "nat list list"

record GenerateResponse =
  data :: "string list"
  hash :: string
  chunks_generated :: int
  response_seed :: int
  verification_url :: string

text \<open>The constructor of \<^verbatim>\<open>GenerateResponse\<close>: the field \<^verbatim>\<open>data\<close> is declared
  \<^verbatim>\<open>List[str]\<close>, and a list of integers is not accepted as a string.\<close>

definition mk_GenerateResponse ::
  "payload \<Rightarrow> string \<Rightarrow> int \<Rightarrow> int \<Rightarrow> string \<Rightarrow> exn + GenerateResponse" where
  "mk_GenerateResponse d h c s u =
     (case d of
        Strings xs \<Rightarrow>
          Inr \<lparr>data = xs, hash = h, chunks_generated = c, response_seed = s,
               verification_url = u\<rparr>
      | IntLists [] \<Rightarrow>
          Inr \<lparr>data = [], hash = h, chunks_generated = c, response_seed = s,
               verification_url = u\<rparr>
      | IntLists (x # xs) \<Rightarrow> Inl ValidationError)"

record BatchRequest =
  seeds :: "int list"
  chunks_per_seed :: int

definition mk_BatchRequest :: "int list \<Rightarrow> int \<Rightarrow> exn + BatchRequest" where
  "mk_BatchRequest ss c =
     (if length ss \<le> 10 \<and> 1 \<le> c \<and> c \<le> 1000
      then Inr \<lparr>seeds = ss, chunks_per_seed = c\<rparr>
      else Inl ValidationError)"

subsection \<open>The generator\<close>

text \<open>\<^verbatim>\<open>UniversalQKD\<close> comes from a library outside the repository, so it is a
  parameter: \<open>fresh\<close> is the state of a newly created generator and \<open>next_chunk\<close> is
  \<^verbatim>\<open>next(gen)\<close>, which yields a chunk and the following state, or raises.\<close>

record 'g qkd =
  fresh :: 'g
  next_chunk :: "'g \<Rightarrow> exn + bytes \<times> 'g"

text \<open>\<^verbatim>\<open>for _ in range(n): next(gen)\<close>\<close>

fun advance :: "'g qkd \<Rightarrow> nat \<Rightarrow> 'g \<Rightarrow> exn + 'g" where
  "advance q 0 g = Inr g"
| "advance q (Suc n) g =
     (case next_chunk q g of Inl e \<Rightarrow> Inl e | Inr (c, g') \<Rightarrow> advance q n g')"

text \<open>\<^verbatim>\<open>[next(gen) for _ in range(n)]\<close>\<close>

fun collect :: "'g qkd \<Rightarrow> nat \<Rightarrow> 'g \<Rightarrow> exn + bytes list \<times> 'g" where
  "collect q 0 g = Inr ([], g)"
| "collect q (Suc n) g =
     (case next_chunk q g of
        Inl e \<Rightarrow> Inl e
      | Inr (c, g') \<Rightarrow>
          (case collect q n g' of Inl e \<Rightarrow> Inl e | Inr (cs, g'') \<Rightarrow> Inr (c # cs, g'')))"

subsection \<open>\<^verbatim>\<open>generate\<close>\<close>

text \<open>The values that reach the parameters \<^verbatim>\<open>req\<close> and \<^verbatim>\<open>auth\<close> of \<^verbatim>\<open>generate\<close>: the
  framework's request object, the dictionary of the authenticated user, or the default
  \<^verbatim>\<open>Depends(verify_api_key)\<close> of the parameter \<^verbatim>\<open>auth\<close> when the caller passes
  nothing for it.\<close>

datatype pyobj =
    RequestObj
  | Dict principal
  | DependsObj

text \<open>\<^verbatim>\<open>obj["field"]\<close>\<close>

fun getitem :: "pyobj \<Rightarrow> (principal \<Rightarrow> 'a) \<Rightarrow> exn + 'a" where
  "getitem (Dict p) field = Inr (field p)"
| "getitem DependsObj field = Inl NotSubscriptable"
| "getitem RequestObj field = Inl KeyError"

definition produce :: "'g qkd \<Rightarrow> GenerateRequest \<Rightarrow> exn + bytes list" where
  "produce q request =
     (case advance q (nat (skip request)) (fresh q) of
        Inl e \<Rightarrow> Inl e
      | Inr g1 \<Rightarrow>
          (case advance q (nat (seed request)) g1 of
             Inl e \<Rightarrow> Inl e
           | Inr g2 \<Rightarrow>
               (case collect q (nat (chunks request)) g2 of
                  Inl e \<Rightarrow> Inl e
                | Inr (chunks_bytes, g3) \<Rightarrow> Inr chunks_bytes)))"

definition format_output :: "string \<Rightarrow> bytes list \<Rightarrow> payload" where
  "format_output f chunks_bytes =
     (if f = ''hex'' then Strings (map hex chunks_bytes)
      else if f = ''json'' then IntLists (map (map unat) chunks_bytes)
      else Strings (map b64encode chunks_bytes))"

text \<open>The usage report of \<^verbatim>\<open>generate\<close>: both subscripts of \<^verbatim>\<open>auth\<close> are evaluated
  before \<^verbatim>\<open>log_usage\<close> is called.\<close>

definition report_usage :: "env \<Rightarrow> GenerateRequest \<Rightarrow> pyobj \<Rightarrow> store \<Rightarrow> exn option \<times> store" where
  "report_usage ev request auth db =
     (if DATABASE_AVAILABLE ev then
        (case getitem auth user_id of
           Inl e \<Rightarrow> (Some e, db)
         | Inr uid \<Rightarrow>
             (case getitem auth api_key_id of
                Inl e \<Rightarrow> (Some e, db)
              | Inr kid \<Rightarrow>
                  (None, log_usage ev uid kid ''/api/v1/generate'' (chunks request)
                           (elapsed_ms ev) 200 db)))
      else (None, db))"

text \<open>The body of the \<^verbatim>\<open>try\<close> block of \<^verbatim>\<open>generate\<close>.\<close>

definition try_generate ::
  "env \<Rightarrow> 'g qkd \<Rightarrow> GenerateRequest \<Rightarrow> pyobj \<Rightarrow> store \<Rightarrow> (exn + GenerateResponse) \<times> store" where
  "try_generate ev q request auth db =
     (case produce q request of
        Inl e \<Rightarrow> (Inl e, db)
      | Inr chunks_bytes \<Rightarrow>
          let d = format_output (format request) chunks_bytes;
              combined = concat chunks_bytes;
              hash_value = hexdigest combined;
              url = ''https://goldenseed.io/verify/'' @ take 16 hash_value
          in (case report_usage ev request auth db of
                (Some e, db') \<Rightarrow> (Inl e, db')
              | (None, db') \<Rightarrow>
                  (mk_GenerateResponse d hash_value (chunks request) (seed request) url, db')))"

definition library_missing :: failure where
  "library_missing = HTTPException 500 (Text ''GoldenSeed library not available'')"

definition generate ::
  "env \<Rightarrow> 'g qkd option \<Rightarrow> GenerateRequest \<Rightarrow> pyobj \<Rightarrow> pyobj \<Rightarrow> store
     \<Rightarrow> (failure + GenerateResponse) \<times> store" where
  "generate ev UniversalQKD request req auth db =
     (case UniversalQKD of
        None \<Rightarrow> (Inl library_missing, db)
      | Some q \<Rightarrow>
          (case try_generate ev q request auth db of
             (Inl e, db') \<Rightarrow> (Inl (HTTPException 500 (Generation_failed e)), db')
           | (Inr r, db') \<Rightarrow> (Inr r, db')))"

subsection \<open>\<^verbatim>\<open>batch_generate\<close>\<close>

text \<open>The loop over \<^verbatim>\<open>request.seeds\<close>. The call is \<^verbatim>\<open>generate(gen_request, auth)\<close>: the
  dictionary goes to the second parameter, \<^verbatim>\<open>req\<close>, and \<^verbatim>\<open>auth\<close> keeps its default.
  A seed that the constructor of \<^verbatim>\<open>GenerateRequest\<close> rejects raises outside every
  handler.\<close>

fun batch_loop ::
  "env \<Rightarrow> 'g qkd option \<Rightarrow> int \<Rightarrow> pyobj \<Rightarrow> int list \<Rightarrow> GenerateResponse list \<Rightarrow> store
     \<Rightarrow> (failure + GenerateResponse list) \<times> store" where
  "batch_loop ev UniversalQKD cps auth [] results db = (Inr results, db)"
| "batch_loop ev UniversalQKD cps auth (s # rest) results db =
     (case mk_GenerateRequest s cps ''hex'' 0 of
        Inl e \<Rightarrow> (Inl (Unhandled e), db)
      | Inr gen_request \<Rightarrow>
          (case generate ev UniversalQKD gen_request auth DependsObj db of
             (Inl f, db') \<Rightarrow> (Inl f, db')
           | (Inr result, db') \<Rightarrow>
               batch_loop ev UniversalQKD cps auth rest (results @ [result]) db'))"

definition batch_generate ::
  "env \<Rightarrow> 'g qkd option \<Rightarrow> BatchRequest \<Rightarrow> pyobj \<Rightarrow> store
     \<Rightarrow> (failure + GenerateResponse list) \<times> store" where
  "batch_generate ev UniversalQKD request auth db =
     (if UniversalQKD = None then (Inl library_missing, db)
      else batch_loop ev UniversalQKD (chunks_per_seed request) auth (seeds request) [] db)"

subsection \<open>The two authenticated endpoints\<close>

text \<open>The framework resolves the dependency \<^verbatim>\<open>Depends(verify_api_key)\<close> first, and an
  \<^verbatim>\<open>HTTPException\<close> raised there ends the request; then it builds the request model from
  the body, where an absent field takes its default, and answers 422 when the
  constructor rejects it; then it calls the handler.\<close>

record generate_body =
  body_seed :: "int option"
  body_chunks :: "int option"
  body_format :: "string option"
  body_skip :: "int option"

definition parse_generate_body :: "generate_body \<Rightarrow> exn + GenerateRequest" where
  "parse_generate_body body =
     mk_GenerateRequest (case body_seed body of None \<Rightarrow> 0 | Some s \<Rightarrow> s)
                        (case body_chunks body of None \<Rightarrow> 100 | Some c \<Rightarrow> c)
                        (case body_format body of None \<Rightarrow> ''hex'' | Some f \<Rightarrow> f)
                        (case body_skip body of None \<Rightarrow> 0 | Some k \<Rightarrow> k)"

definition post_generate ::
  "env \<Rightarrow> 'g qkd option \<Rightarrow> string option \<Rightarrow> generate_body \<Rightarrow> store
     \<Rightarrow> (failure + GenerateResponse) \<times> store" where
  "post_generate ev UniversalQKD authorization body db =
     (case verify_api_key ev authorization db of
        (Inl f, db1) \<Rightarrow> (Inl f, db1)
      | (Inr user, db1) \<Rightarrow>
          (case parse_generate_body body of
             Inl e \<Rightarrow> (Inl RequestValidationError, db1)
           | Inr request \<Rightarrow> generate ev UniversalQKD request RequestObj (Dict user) db1))"

record batch_body =
  body_seeds :: "int list option"
  body_chunks_per_seed :: "int option"

definition parse_batch_body :: "batch_body \<Rightarrow> exn + BatchRequest" where
  "parse_batch_body body =
     (case body_seeds body of
        None \<Rightarrow> Inl ValidationError
      | Some ss \<Rightarrow>
          mk_BatchRequest ss (case body_chunks_per_seed body of None \<Rightarrow> 100 | Some c \<Rightarrow> c))"

definition post_batch ::
  "env \<Rightarrow> 'g qkd option \<Rightarrow> string option \<Rightarrow> batch_body \<Rightarrow> store
     \<Rightarrow> (failure + GenerateResponse list) \<times> store" where
  "post_batch ev UniversalQKD authorization body db =
     (case verify_api_key ev authorization db of
        (Inl f, db1) \<Rightarrow> (Inl f, db1)
      | (Inr user, db1) \<Rightarrow>
          (case parse_batch_body body of
             Inl e \<Rightarrow> (Inl RequestValidationError, db1)
           | Inr request \<Rightarrow> batch_generate ev UniversalQKD request (Dict user) db1))"

text \<open>The status of the answer: 200 when the handler returns.\<close>

definition status :: "(failure + 'a) \<times> store \<Rightarrow> int" where
  "status r = (case fst r of Inl f \<Rightarrow> status_code f | Inr x \<Rightarrow> 200)"

subsection \<open>Floating-point numbers\<close>

text \<open>Python's \<^verbatim>\<open>float\<close> is IEEE 754 binary64. A finite double is modelled by the rational
  number it denotes, and an operation by the exact operation followed by \<open>to_double\<close>, the
  rounding to the nearest double with ties to the even significand: for a value between
  \<open>2 ^ e\<close> and \<open>2 ^ (e + 1)\<close> the doubles are the multiples of \<open>2 ^ (e - 52)\<close>, and below
  \<open>2 ^ -1022\<close> the multiples of \<open>2 ^ -1074\<close>. Overflow is left out: every value of
  \<^verbatim>\<open>coinflip_stats\<close> lies between -1 and 1. \<open>log2_ge1 x\<close> is the integer part of
  the binary logarithm of \<open>x \<ge> 1\<close>.\<close>

function log2_ge1 :: "rat \<Rightarrow> int" where
  "log2_ge1 x = (if x < 2 then 0 else 1 + log2_ge1 (x / 2))"
  by pat_completeness auto
termination
proof (relation "measure (\<lambda>x. nat \<lfloor>x\<rfloor>)")
  show "wf (measure (\<lambda>x::rat. nat \<lfloor>x\<rfloor>))" by simp
next
  fix x :: rat assume "\<not> x < 2"
  then have "2 \<le> x" by simp
  then have "\<lfloor>x / 2\<rfloor> < \<lfloor>x\<rfloor>" and "0 < \<lfloor>x\<rfloor>"
    by (auto simp: floor_less_iff less_floor_iff) linarith+
  then show "(x / 2, x) \<in> measure (\<lambda>x. nat \<lfloor>x\<rfloor>)"
    by simp
qed
declare log2_ge1.simps [simp del]

definition ilog2 :: "rat \<Rightarrow> int" where
  "ilog2 x =
     (if 1 \<le> x then log2_ge1 x
      else let k = log2_ge1 (1 / x) in if power_int 2 k = 1 / x then - k else - k - 1)"

definition round_half_even :: "rat \<Rightarrow> int" where
  "round_half_even y =
     (let f = \<lfloor>y\<rfloor>; r = y - of_int f in
      if r < 1 / 2 then f else if 1 / 2 < r then f + 1 else if even f then f else f + 1)"

definition to_double :: "rat \<Rightarrow> rat" where
  "to_double x =
     (if x = 0 then 0
      else let e = max (ilog2 \<bar>x\<bar>) (- 1022); q = power_int 2 (e - 52) in
        of_int (round_half_even (x / q)) * q)"

text \<open>\<^verbatim>\<open>a / b\<close> on integers (the quotient, correctly rounded), \<^verbatim>\<open>x - y\<close> on floats,
  and \<^verbatim>\<open>round(x, ndigits)\<close>, which rounds the exact value of \<open>x\<close> to the decimal with
  \<open>ndigits\<close> places, ties to even, and returns the double nearest to it.\<close>

definition truediv :: "int \<Rightarrow> int \<Rightarrow> rat" where
  "truediv a b = to_double (of_int a / of_int b)"

definition fsub :: "rat \<Rightarrow> rat \<Rightarrow> rat" where
  "fsub x y = to_double (x - y)"

definition py_round :: "rat \<Rightarrow> nat \<Rightarrow> rat" where
  "py_round x ndigits = to_double (of_int (round_half_even (x * 10 ^ ndigits)) / 10 ^ ndigits)"

subsection \<open>\<^verbatim>\<open>coinflip_stats\<close>\<close>

record CoinFlipStatsResponse =
  heads :: int
  tails :: int
  total :: int
  heads_ratio :: rat
  perfect_balance :: bool
  message :: string

text \<open>The loop over \<^verbatim>\<open>range(flips)\<close>: \<^verbatim>\<open>next(gen)[0]\<close> raises \<^verbatim>\<open>IndexError\<close> on an
  empty chunk; the count goes up when the lowest bit of the first byte is set.\<close>

fun count_heads :: "'g qkd \<Rightarrow> nat \<Rightarrow> 'g \<Rightarrow> int \<Rightarrow> exn + int" where
  "count_heads q 0 g h = Inr h"
| "count_heads q (Suc n) g h =
     (case next_chunk q g of
        Inl e \<Rightarrow> Inl e
      | Inr (c, g') \<Rightarrow>
          (case c of
             [] \<Rightarrow> Inl IndexError
           | byte_val # rest \<Rightarrow>
               count_heads q n g' (if byte_val AND 1 \<noteq> 0 then h + 1 else h)))"

text \<open>\<^verbatim>\<open>GET /api/v1/stats/coinflip\<close>. The two query parameters are absent or integers;
  the framework applies the defaults and the bounds (\<^verbatim>\<open>ge=0\<close>; \<^verbatim>\<open>ge=1, le=1000000\<close>)
  before the function runs. Every exception inside the \<^verbatim>\<open>try\<close> block is answered 500.\<close>

definition coinflip_stats ::
    "'g qkd option \<Rightarrow> int option \<Rightarrow> int option \<Rightarrow> failure + CoinFlipStatsResponse" where
  "coinflip_stats UniversalQKD seed_param flips_param =
     (let seed = (case seed_param of None \<Rightarrow> 0 | Some s \<Rightarrow> s);
          flips = (case flips_param of None \<Rightarrow> 100000 | Some f \<Rightarrow> f)
      in if seed < 0 \<or> flips < 1 \<or> 1000000 < flips then Inl RequestValidationError
         else case UniversalQKD of
           None \<Rightarrow> Inl library_missing
         | Some q \<Rightarrow>
             (case advance q (nat seed) (fresh q) of
                Inl e \<Rightarrow> Inl (HTTPException 500 (Stats_generation_failed e))
              | Inr g \<Rightarrow>
                  (case count_heads q (nat flips) g 0 of
                     Inl e \<Rightarrow> Inl (HTTPException 500 (Stats_generation_failed e))
                   | Inr h \<Rightarrow>
                       let ratio = truediv h flips;
                           perfect = (\<bar>fsub ratio (1 / 2)\<bar> < to_double (1 / 1000))
                       in Inr \<lparr>heads = h, tails = flips - h, total = flips,
                               heads_ratio = py_round ratio 6, perfect_balance = perfect,
                               message =
                                 (if perfect
                                  then ''Generated '' @ format_commas flips
                                       @ '' flips with perfect distribution''
                                  else ''Distribution within expected variance'')\<rparr>)))"

section \<open>Sample inputs\<close>

text \<open>A generator for the examples: the chunk at position \<open>n\<close> holds the sixteen bytes
  \<open>n\<close>, \<open>n + 1\<close>, ..., \<open>n + 15\<close>; the settings of the demo mode; a store with empty
  tables that answers every request.\<close>

definition counter_qkd :: "nat qkd" where
  "counter_qkd = \<lparr>fresh = 0, next_chunk = (\<lambda>n. Inr
     ([of_nat n, of_nat (n + 1), of_nat (n + 2), of_nat (n + 3), of_nat (n + 4), of_nat (n + 5),
       of_nat (n + 6), of_nat (n + 7), of_nat (n + 8), of_nat (n + 9), of_nat (n + 10),
       of_nat (n + 11), of_nat (n + 12), of_nat (n + 13), of_nat (n + 14), of_nat (n + 15)],
      Suc n))\<rparr>"

definition demo_env :: env where
  "demo_env = \<lparr>DATABASE_AVAILABLE = False, supabase = False,
                utcnow = ''2024-01-01T00:00:00'', elapsed_ms = 3\<rparr>"

definition empty_store :: store where
  "empty_store = \<lparr>api_keys = [], users = [], subscriptions = [], usage_logs = [],
     monthly_usage_rpc = (\<lambda>u. None), rate_limit_rpc = (\<lambda>u l. None),
     raises = (\<lambda>k. False), calls = []\<rparr>"

text \<open>What a client compares between two answers: the failure, or \<^verbatim>\<open>data\<close> and
  \<^verbatim>\<open>hash\<close>.\<close>

definition data_and_hash ::
  "(failure + GenerateResponse) \<times> store \<Rightarrow> failure + string list \<times> string" where
  "data_and_hash x = (case fst x of Inl f \<Rightarrow> Inl f | Inr r \<Rightarrow> Inr (data r, hash r))"

text \<open>In the words of the specification: the digest of the key matches an active API-key
  record whose user exists and has an active subscription.\<close>

definition resolvable :: "store \<Rightarrow> string \<Rightarrow> bool" where
  "resolvable db key =
     (case filter (\<lambda>r. key_hash r = hash_api_key key \<and> key_active r) (api_keys db) of
        [] \<Rightarrow> False
      | key_record # other \<Rightarrow>
          filter (\<lambda>r. usr_id r = key_user_id key_record) (users db) \<noteq> [] \<and>
          filter (\<lambda>r. sub_user_id r = key_user_id key_record \<and> sub_active r)
                 (subscriptions db) \<noteq> [])"

text \<open>The settings of a deployment with the database module and a configured client.\<close>

definition db_env :: env where
  "db_env = \<lparr>DATABASE_AVAILABLE = True, supabase = True,
              utcnow = ''2024-01-01T00:00:00'', elapsed_ms = 3\<rparr>"

text \<open>A store with one active key, its user and one active subscription of the free tier,
  where the stored procedures report the monthly usage \<open>n\<close> and a respected rate limit.\<close>

definition live_store :: "int \<Rightarrow> store" where
  "live_store n = \<lparr>
     api_keys = [\<lparr>key_id = ''k1'', key_user_id = ''u1'', key_hash = hash_api_key ''gs_live_key'',
                  key_active = True, last_used_at = None\<rparr>],
     users = [\<lparr>usr_id = ''u1'', usr_email = ''dev@example.org''\<rparr>],
     subscriptions = [\<lparr>sub_user_id = ''u1'', sub_tier = ''free'', sub_chunks_limit = 10000,
                       sub_rate_limit = 100, sub_active = True\<rparr>],
     usage_logs = [],
     monthly_usage_rpc = (\<lambda>u. Some n), rate_limit_rpc = (\<lambda>u l. Some True),
     raises = (\<lambda>k. False), calls = []\<rparr>"

definition live_principal :: principal where
  "live_principal = \<lparr>user_id = ''u1'', api_key_id = ''k1'', email = ''dev@example.org'',
     tier = ''free'', chunks_limit = 10000, rate_limit = 100\<rparr>"

text \<open>The store \<open>live_store n\<close> after the key \<^verbatim>\<open>gs_live_key\<close> was resolved at the time of
  \<open>db_env\<close>, and after the two limit checks that follow.\<close>

definition resolved_store :: "int \<Rightarrow> store" where
  "resolved_store n = (live_store n)\<lparr>
     api_keys := [\<lparr>key_id = ''k1'', key_user_id = ''u1'',
                   key_hash = hash_api_key ''gs_live_key'', key_active = True,
                   last_used_at = Some ''2024-01-01T00:00:00''\<rparr>],
     calls := [SelectApiKeys (hash_api_key ''gs_live_key''), SelectUsers ''u1'',
               SelectSubscriptions ''u1'', UpdateLastUsed ''k1'']\<rparr>"

definition admitted_store :: "int \<Rightarrow> store" where
  "admitted_store n = (resolved_store n)\<lparr>
     calls := calls (resolved_store n) @ [RpcRateLimit ''u1'' 100, RpcMonthlyUsage ''u1'']\<rparr>"

text \<open>A store whose fourth request, the update of \<^verbatim>\<open>last_used_at\<close>, raises.\<close>

definition stale_store :: store where
  "stale_store = (live_store 0)\<lparr>raises := (\<lambda>k. k = 3)\<rparr>"

text \<open>The requests to the store that stand for the three admission checks.\<close>

fun is_key_lookup :: "call \<Rightarrow> bool" where
  "is_key_lookup (SelectApiKeys h) = True"
| "is_key_lookup c = False"

fun is_rate_check :: "call \<Rightarrow> bool" where
  "is_rate_check (RpcRateLimit u l) = True"
| "is_rate_check c = False"

fun is_quota_check :: "call \<Rightarrow> bool" where
  "is_quota_check (RpcMonthlyUsage u) = True"
| "is_quota_check c = False"

text \<open>The requests that one successful run of \<^verbatim>\<open>verify_api_key\<close> sends to the store:
  none in demo mode; otherwise the three lookups, the update of the timestamp, the
  rate-limit check and the usage query, each once.\<close>

definition admission_calls :: "env \<Rightarrow> string option \<Rightarrow> principal \<Rightarrow> call list" where
  "admission_calls ev authorization user =
     (case authorization of
        None \<Rightarrow> []
      | Some a \<Rightarrow>
          if DATABASE_AVAILABLE ev
          then [SelectApiKeys (hash_api_key (api_key_of a)), SelectUsers (user_id user),
                SelectSubscriptions (user_id user), UpdateLastUsed (api_key_id user),
                RpcRateLimit (user_id user) (rate_limit user), RpcMonthlyUsage (user_id user)]
          else [])"

text \<open>The store of \<open>live_store\<close> when every request raises; the same store with a usage above
  the quota when the lookups and the update are answered and every later request raises;
  and the settings of a deployment whose database module is present but whose client
  was not configured.\<close>

definition down_store :: store where
  "down_store = (live_store 0)\<lparr>raises := (\<lambda>k. True)\<rparr>"

definition checks_down_store :: store where
  "checks_down_store = (live_store 20000)\<lparr>raises := (\<lambda>k. 4 \<le> k)\<rparr>"

definition unconfigured_env :: env where
  "unconfigured_env = \<lparr>DATABASE_AVAILABLE = True, supabase = False,
                        utcnow = ''2024-01-01T00:00:00'', elapsed_ms = 3\<rparr>"

text \<open>A generator whose chunk at position \<open>n\<close> is the single byte 1 while \<open>n < k\<close> and 0
  afterwards; and what the examples read in an answer: the count of heads and the flag.\<close>

definition threshold_qkd :: "nat \<Rightarrow> nat qkd" where
  "threshold_qkd k = \<lparr>fresh = 0, next_chunk = (\<lambda>n. Inr ([if n < k then 1 else 0], Suc n))\<rparr>"

definition heads_and_balance :: "failure + CoinFlipStatsResponse \<Rightarrow> (int \<times> bool) option" where
  "heads_and_balance a = (case a of Inl f \<Rightarrow> None | Inr r \<Rightarrow> Some (heads r, perfect_balance r))"

section \<open>Properties\<close>

subsection \<open>Hexadecimal text and digests\<close>

lemma length_hex_byte: "length (hex_byte b) = 2"
  by (simp add: hex_byte_def)

lemma length_hex: "length (hex bs) = 2 * length bs"
  by (induction bs) (simp_all add: hex_def length_hex_byte)

lemma length_hexdigits: "length hexdigits = 16"
  by (simp add: hexdigits_def)

lemma unat_byte_less: "unat (b :: byte) < 256"
  using unsigned_less [of b, where ?'a = nat] by simp

lemma hexdigit_nth: "n < 16 \<Longrightarrow> hexdigits ! n \<in> set hexdigits"
  by (rule nth_mem) (simp add: length_hexdigits)

lemma set_hex_byte: "set (hex_byte b) \<subseteq> set hexdigits"
proof -
  have "unat b div 16 < 16" using unat_byte_less [of b] by arith
  moreover have "unat b mod 16 < 16" by simp
  ultimately show ?thesis
    by (simp add: hex_byte_def hexdigit_nth)
qed

lemma set_hex: "set (hex bs) \<subseteq> set hexdigits"
  using set_hex_byte by (auto simp: hex_def)

lemma hexval_hexdigits: "n < 16 \<Longrightarrow> hexval (hexdigits ! n) = Some n"
proof -
  have "\<forall>k \<in> set [0..<16]. hexval (hexdigits ! k) = Some k"
    by code_simp
  then show "n < 16 \<Longrightarrow> hexval (hexdigits ! n) = Some n"
    by simp
qed

lemma unhex_hex_byte: "unhex (hex_byte b @ rest) = (case unhex rest of None \<Rightarrow> None | Some bs \<Rightarrow> Some (b # bs))"
proof -
  have hi: "unat b div 16 < 16" using unat_byte_less [of b] by arith
  have lo: "unat b mod 16 < 16" by simp
  have "(of_nat (16 * (unat b div 16) + unat b mod 16) :: byte) = b"
    by simp
  then show ?thesis
    by (simp add: hex_byte_def hexval_hexdigits [OF hi] hexval_hexdigits [OF lo] split: option.splits)
qed

lemma unhex_hex: "unhex (hex bs) = Some bs"
proof (induction bs)
  case Nil
  then show ?case by (simp add: hex_def)
next
  case (Cons b bs)
  have "hex (b # bs) = hex_byte b @ hex bs" by (simp add: hex_def)
  then show ?case using Cons by (simp add: unhex_hex_byte)
qed

lemma round_constants: "frac_root 3 2 = 0x428a2f98" "frac_root 3 311 = 0xc67178f2"
  by code_simp+

lemma initial_hash_value: "frac_root 2 2 = 0x6a09e667" "frac_root 2 19 = 0x5be0cd19"
  by code_simp+

lemma length_be32: "length (be32 w) = 4"
  by (simp add: be32_def)

lemma length_sha256: "length (sha256 m) = 32"
  by (simp add: sha256_def digest_of_def length_be32 Let_def split: prod.splits)

lemma length_hexdigest: "length (hexdigest m) = 64"
  by (simp add: hexdigest_def length_hex length_sha256)


subsection \<open>The generator loops\<close>

lemma collect_length: "collect q n g = Inr (cs, g') \<Longrightarrow> length cs = n"
  by (induction n arbitrary: g cs g') (auto split: sum.splits prod.splits)

lemma collect_sizes:
  assumes "\<And>g c g'. next_chunk q g = Inr (c, g') \<Longrightarrow> length c = k"
  shows "collect q n g = Inr (cs, g') \<Longrightarrow> \<forall>c \<in> set cs. length c = k"
  by (induction n arbitrary: g cs g') (auto split: sum.splits prod.splits dest: assms)

lemma advance_add:
  "advance q (m + n) g = (case advance q m g of Inl e \<Rightarrow> Inl e | Inr g' \<Rightarrow> advance q n g')"
  by (induction m arbitrary: g) (auto split: sum.splits prod.splits)

lemma produce_Inr:
  assumes "produce q request = Inr cs"
  shows "length cs = nat (chunks request)"
  using assms by (auto simp: produce_def split: sum.splits prod.splits dest: collect_length)

lemma produce_sizes:
  assumes "\<And>g c g'. next_chunk q g = Inr (c, g') \<Longrightarrow> length c = k"
    and "produce q request = Inr cs"
  shows "\<forall>c \<in> set cs. length c = k"
  using assms(2) collect_sizes [of q k, OF assms(1)]
  by (auto simp: produce_def split: sum.splits prod.splits)

subsection \<open>The answer of a successful generation\<close>

lemma generate_Inr:
  assumes "generate ev UniversalQKD request req auth db = (Inr r, db')"
  shows "\<exists>q cs. UniversalQKD = Some q \<and> produce q request = Inr cs
           \<and> mk_GenerateResponse (format_output (format request) cs) (hexdigest (concat cs))
                (chunks request) (seed request)
                (''https://goldenseed.io/verify/'' @ take 16 (hexdigest (concat cs))) = Inr r"
  using assms
  by (auto simp: generate_def try_generate_def Let_def split: option.splits sum.splits prod.splits)

lemma post_generate_Inr:
  assumes "post_generate ev UniversalQKD authorization body db = (Inr r, db')"
  shows "\<exists>user db1 request. verify_api_key ev authorization db = (Inr user, db1)
           \<and> parse_generate_body body = Inr request
           \<and> generate ev UniversalQKD request RequestObj (Dict user) db1 = (Inr r, db')"
  using assms
  by (auto simp: post_generate_def split: sum.splits prod.splits)

lemma parse_generate_body_format:
  "parse_generate_body body = Inr request \<Longrightarrow>
     format request = (case body_format body of None \<Rightarrow> ''hex'' | Some f \<Rightarrow> f)"
  by (auto simp: parse_generate_body_def mk_GenerateRequest_def split: if_splits)

text \<open>Claim C1. When \<^verbatim>\<open>POST /api/v1/generate\<close> succeeds for the format \<^verbatim>\<open>hex\<close> (given or
  by default) and the generator yields chunks of 16 bytes, \<^verbatim>\<open>data\<close> holds, chunk by chunk,
  the hexadecimal text of the chunks produced: 32 characters each, all of them lowercase
  hexadecimal digits. \<^verbatim>\<open>hash\<close> is the hexadecimal text of the SHA-256 digest of the
  concatenated chunks, 64 lowercase hexadecimal digits; with one chunk, it is the digest of
  the 16 bytes that the single element of \<^verbatim>\<open>data\<close> decodes to.\<close>

theorem generate_hex_response:
  assumes ok: "post_generate ev UniversalQKD authorization body db = (Inr r, db')"
    and fmt: "body_format body = None \<or> body_format body = Some ''hex''"
    and size: "\<forall>q g c g'. UniversalQKD = Some q \<longrightarrow> next_chunk q g = Inr (c, g') \<longrightarrow> length c = 16"
  shows "\<exists>q request cs.
           UniversalQKD = Some q \<and> parse_generate_body body = Inr request
         \<and> produce q request = Inr cs \<and> int (length cs) = chunks request
         \<and> (\<forall>c \<in> set cs. length c = 16)
         \<and> data r = map hex cs
         \<and> (\<forall>d \<in> set (data r). length d = 32 \<and> set d \<subseteq> set ''0123456789abcdef'')
         \<and> hash r = hex (sha256 (concat cs))
         \<and> length (hash r) = 64 \<and> set (hash r) \<subseteq> set ''0123456789abcdef''
         \<and> (chunks request = 1 \<longrightarrow>
              (\<exists>d raw. data r = [d] \<and> unhex d = Some raw \<and> length raw = 16
                       \<and> hash r = hex (sha256 raw)))"
proof -
  from post_generate_Inr [OF ok] obtain user db1 request where
    parse: "parse_generate_body body = Inr request" and
    gen: "generate ev UniversalQKD request RequestObj (Dict user) db1 = (Inr r, db')"
    by blast
  from generate_Inr [OF gen] obtain q cs where
    q: "UniversalQKD = Some q" and prod: "produce q request = Inr cs" and
    mk: "mk_GenerateResponse (format_output (format request) cs) (hexdigest (concat cs))
           (chunks request) (seed request)
           (''https://goldenseed.io/verify/'' @ take 16 (hexdigest (concat cs))) = Inr r"
    by blast
  have f: "format request = ''hex''"
    using parse_generate_body_format [OF parse] fmt by auto
  have pos: "1 \<le> chunks request"
    using parse by (auto simp: parse_generate_body_def mk_GenerateRequest_def split: if_splits)
  have len: "int (length cs) = chunks request"
    using produce_Inr [OF prod] pos by simp
  have sizes: "\<forall>c \<in> set cs. length c = 16"
    by (rule produce_sizes [OF _ prod]) (use size q in blast)
  have d: "data r = map hex cs" and h: "hash r = hex (sha256 (concat cs))"
    using mk f by (auto simp: mk_GenerateResponse_def format_output_def hexdigest_def)
  have dd: "\<forall>d \<in> set (data r). length d = 32 \<and> set d \<subseteq> set ''0123456789abcdef''"
    using sizes set_hex by (auto simp: d length_hex hexdigits_def)
  have hh: "length (hash r) = 64 \<and> set (hash r) \<subseteq> set ''0123456789abcdef''"
    using set_hex [of "sha256 (concat cs)"] by (simp add: h length_hex length_sha256 hexdigits_def)
  have one: "\<exists>d raw. data r = [d] \<and> unhex d = Some raw \<and> length raw = 16
                       \<and> hash r = hex (sha256 raw)" if "chunks request = 1"
  proof -
    from that len have "length cs = 1" by simp
    then obtain c where cs: "cs = [c]" by (cases cs) auto
    with sizes have "length c = 16" by simp
    then show ?thesis by (simp add: d h cs unhex_hex)
  qed
  show ?thesis
    using q parse prod len sizes d dd h hh one by blast
qed


subsection \<open>Evaluation of the sample inputs\<close>

lemma demo_key_of_header: "api_key_of ''Bearer gs_demo_key_12345'' = ''gs_demo_key_12345''"
  by code_simp

lemma verify_demo:
  "verify_api_key demo_env (Some ''Bearer gs_demo_key_12345'') db = (Inr demo_principal, db)"
  by (simp add: verify_api_key_def startswith_def demo_key_of_header demo_env_def)

lemma demo_env_no_database: "\<not> DATABASE_AVAILABLE demo_env"
  by (simp add: demo_env_def)

lemma hex_sample: "hex [0, 1, 2, 3, 4, 5, 6, 7, 8, 9, 10, 11, 12, 13, 14, 15]
   = ''000102030405060708090a0b0c0d0e0f''"
  by code_simp

theorem generate_hex_response_witness:
  "\<exists>r db'. post_generate demo_env (Some counter_qkd) (Some ''Bearer gs_demo_key_12345'')
              \<lparr>body_seed = Some 0, body_chunks = Some 1, body_format = Some ''hex'',
               body_skip = None\<rparr> empty_store = (Inr r, db')
     \<and> data r = [''000102030405060708090a0b0c0d0e0f'']
     \<and> length (hash r) = 64
     \<and> unhex ''000102030405060708090a0b0c0d0e0f''
          = Some [0, 1, 2, 3, 4, 5, 6, 7, 8, 9, 10, 11, 12, 13, 14, 15]
     \<and> hash r = hex (sha256 [0, 1, 2, 3, 4, 5, 6, 7, 8, 9, 10, 11, 12, 13, 14, 15])"
proof -
  let ?body = "\<lparr>body_seed = Some 0, body_chunks = Some 1, body_format = Some ''hex'',
               body_skip = None\<rparr>"
  let ?c = "[0, 1, 2, 3, 4, 5, 6, 7, 8, 9, 10, 11, 12, 13, 14, 15] :: bytes"
  let ?r = "\<lparr>data = [hex ?c], hash = hexdigest ?c, chunks_generated = 1, response_seed = 0,
            verification_url = ''https://goldenseed.io/verify/'' @ take 16 (hexdigest ?c)\<rparr>"
  have parse: "parse_generate_body ?body = Inr \<lparr>seed = 0, chunks = 1, format = ''hex'', skip = 0\<rparr>"
    by (simp add: parse_generate_body_def mk_GenerateRequest_def)
  have prod: "produce counter_qkd \<lparr>seed = 0, chunks = 1, format = ''hex'', skip = 0\<rparr> = Inr [?c]"
    by (simp add: produce_def counter_qkd_def)
  have run: "post_generate demo_env (Some counter_qkd) (Some ''Bearer gs_demo_key_12345'')
               ?body empty_store = (Inr ?r, empty_store)"
    by (simp add: post_generate_def verify_demo parse generate_def try_generate_def prod
        format_output_def report_usage_def demo_env_no_database mk_GenerateResponse_def Let_def)
  have fmt: "body_format ?body = None \<or> body_format ?body = Some ''hex''"
    by simp
  have size: "\<forall>q g c g'. Some counter_qkd = Some q \<longrightarrow> next_chunk q g = Inr (c, g')
                \<longrightarrow> length c = 16"
    by (auto simp: counter_qkd_def)
  from generate_hex_response [OF run fmt size]
  obtain q request cs where
    "Some counter_qkd = Some q" "parse_generate_body ?body = Inr request"
    "produce q request = Inr cs" "data ?r = map hex cs"
    "hash ?r = hex (sha256 (concat cs))" "length (hash ?r) = 64"
    by auto
  with parse prod have "data ?r = [hex ?c]" "hash ?r = hex (sha256 ?c)" "length (hash ?r) = 64"
    by auto
  moreover have "unhex ''000102030405060708090a0b0c0d0e0f'' = Some ?c"
    using unhex_hex [of ?c] by (simp only: hex_sample)
  ultimately show ?thesis
    using run by (simp add: hex_sample)
qed

subsection \<open>Seed and skip\<close>

lemma produce_skip_seed:
  assumes "0 \<le> s" "0 \<le> k"
  shows "produce q \<lparr>seed = s, chunks = c, format = f, skip = k\<rparr>
       = produce q \<lparr>seed = s + k, chunks = c, format = f, skip = 0\<rparr>"
proof -
  have "nat (s + k) = nat k + nat s" using assms by simp
  then show ?thesis
    by (simp add: produce_def advance_add split: sum.splits)
qed

lemma generate_skip_seed:
  assumes "0 \<le> s" "0 \<le> k"
  shows "data_and_hash (generate ev U \<lparr>seed = s, chunks = c, format = f, skip = k\<rparr> req auth db)
       = data_and_hash (generate ev U \<lparr>seed = s + k, chunks = c, format = f, skip = 0\<rparr> req auth db)
     \<and> snd (generate ev U \<lparr>seed = s, chunks = c, format = f, skip = k\<rparr> req auth db)
       = snd (generate ev U \<lparr>seed = s + k, chunks = c, format = f, skip = 0\<rparr> req auth db)"
  by (auto simp: data_and_hash_def generate_def try_generate_def produce_skip_seed [OF assms]
      report_usage_def mk_GenerateResponse_def Let_def
      split: option.splits sum.splits prod.splits payload.splits list.splits)

text \<open>Claim C9. For non-negative \<open>s\<close> and \<open>k\<close>, the request with seed \<open>s\<close> and skip
  \<open>k\<close> and the request with seed \<open>s + k\<close> and skip 0, otherwise alike, are answered with
  the same \<^verbatim>\<open>data\<close> and \<^verbatim>\<open>hash\<close> (or fail alike).\<close>

theorem skip_seed_interchangeable:
  assumes "0 \<le> s" "0 \<le> k"
  shows "data_and_hash (post_generate ev U authorization
             \<lparr>body_seed = Some s, body_chunks = c, body_format = f, body_skip = Some k\<rparr> db)
       = data_and_hash (post_generate ev U authorization
             \<lparr>body_seed = Some (s + k), body_chunks = c, body_format = f, body_skip = Some 0\<rparr> db)"
proof -
  have *: "data_and_hash (generate ev U \<lparr>seed = s, chunks = c', format = f', skip = k\<rparr> req auth db1)
       = data_and_hash (generate ev U \<lparr>seed = s + k, chunks = c', format = f', skip = 0\<rparr> req auth db1)"
    for c' f' req auth db1
    using generate_skip_seed [OF assms] by blast
  show ?thesis
    using assms
    by (auto simp: post_generate_def parse_generate_body_def mk_GenerateRequest_def *
        data_and_hash_def [of "(Inl _, _)"]
        split: prod.splits sum.splits)
qed


lemma fresh_counter: "fresh counter_qkd = 0"
  by (simp add: counter_qkd_def)

lemma counter_advance: "advance counter_qkd n g = Inr (g + n)"
  by (induction n arbitrary: g) (simp_all add: counter_qkd_def)

lemma hex_sample5: "hex [5, 6, 7, 8, 9, 10, 11, 12, 13, 14, 15, 16, 17, 18, 19, 20]
   = ''05060708090a0b0c0d0e0f1011121314''"
  by code_simp

theorem skip_seed_interchangeable_witness:
  "(0::int) \<le> 2 \<and> (0::int) \<le> 3
   \<and> data_and_hash (post_generate demo_env (Some counter_qkd) (Some ''Bearer gs_demo_key_12345'')
         \<lparr>body_seed = Some 2, body_chunks = Some 1, body_format = Some ''hex'',
          body_skip = Some 3\<rparr> empty_store)
     = data_and_hash (post_generate demo_env (Some counter_qkd) (Some ''Bearer gs_demo_key_12345'')
         \<lparr>body_seed = Some (2 + 3), body_chunks = Some 1, body_format = Some ''hex'',
          body_skip = Some 0\<rparr> empty_store)
   \<and> data_and_hash (post_generate demo_env (Some counter_qkd) (Some ''Bearer gs_demo_key_12345'')
         \<lparr>body_seed = Some (2 + 3), body_chunks = Some 1, body_format = Some ''hex'',
          body_skip = Some 0\<rparr> empty_store)
     = Inr ([''05060708090a0b0c0d0e0f1011121314''],
            hexdigest [5, 6, 7, 8, 9, 10, 11, 12, 13, 14, 15, 16, 17, 18, 19, 20])"
proof -
  have s: "(0::int) \<le> 2" and k: "(0::int) \<le> 3" by simp_all
  have "collect counter_qkd (Suc 0) 5
      = Inr ([[5, 6, 7, 8, 9, 10, 11, 12, 13, 14, 15, 16, 17, 18, 19, 20]], 6)"
    by (simp add: counter_qkd_def)
  then have prod: "produce counter_qkd \<lparr>seed = 5, chunks = 1, format = ''hex'', skip = 0\<rparr>
      = Inr [[5, 6, 7, 8, 9, 10, 11, 12, 13, 14, 15, 16, 17, 18, 19, 20]]"
    by (simp add: produce_def counter_advance fresh_counter)
  have run: "data_and_hash (post_generate demo_env (Some counter_qkd)
         (Some ''Bearer gs_demo_key_12345'')
         \<lparr>body_seed = Some (2 + 3), body_chunks = Some 1, body_format = Some ''hex'',
          body_skip = Some 0\<rparr> empty_store)
     = Inr ([''05060708090a0b0c0d0e0f1011121314''],
            hexdigest [5, 6, 7, 8, 9, 10, 11, 12, 13, 14, 15, 16, 17, 18, 19, 20])"
    by (simp add: post_generate_def verify_demo parse_generate_body_def mk_GenerateRequest_def
        generate_def try_generate_def prod format_output_def report_usage_def
        demo_env_no_database mk_GenerateResponse_def Let_def data_and_hash_def hex_sample5)
  show ?thesis
    using skip_seed_interchangeable [OF s k, of demo_env "Some counter_qkd"
        "Some ''Bearer gs_demo_key_12345''" "Some 1" "Some ''hex''" empty_store] run
    by simp
qed

subsection \<open>The key taken from the header\<close>

lemma replace_absent:
  assumes "old \<noteq> []"
  shows "(\<forall>i. \<not> startswith (drop i s) old) \<Longrightarrow> replace s old new = s"
proof (induction s)
  case Nil
  then show ?case using assms by (subst replace.simps) simp
next
  case (Cons c s)
  have here: "\<not> startswith (c # s) old" using Cons.prems [rule_format, of 0] by simp
  have "\<forall>i. \<not> startswith (drop i s) old"
  proof
    fix i show "\<not> startswith (drop i s) old" using Cons.prems [rule_format, of "Suc i"] by simp
  qed
  then have "replace s old new = s" by (rule Cons.IH)
  then show ?case using assms here by (subst replace.simps) simp
qed

lemma api_key_of_prefix_only:
  assumes "startswith a ''Bearer ''" and "\<forall>i. \<not> startswith (drop i (drop 7 a)) ''Bearer ''"
  shows "api_key_of a = drop 7 a"
proof -
  have "a \<noteq> []" using assms(1) by (auto simp: startswith_def)
  then have "replace a ''Bearer '' [] = replace (drop 7 a) ''Bearer '' []"
    using assms(1) by (subst replace.simps) (simp add: eval_nat_numeral)
  then show ?thesis
    using replace_absent [of "''Bearer ''" "drop 7 a" "[]"] assms(2) by (simp add: api_key_of_def)
qed

lemma doubled_scheme_key:
  "api_key_of ''Bearer Bearer gs_demo_key_12345'' = ''gs_demo_key_12345''"
  by code_simp

text \<open>Claim C7. The key is the header with every occurrence of the scheme prefix removed,
  not only the leading one: the header \<^verbatim>\<open>Bearer Bearer gs_demo_key_12345\<close>, whose remainder
  after the first seven characters is \<^verbatim>\<open>Bearer gs_demo_key_12345\<close>, is looked up as
  \<^verbatim>\<open>gs_demo_key_12345\<close> and accepted in demo mode like the well-formed header.\<close>

theorem doubled_scheme_accepted:
  "startswith ''Bearer Bearer gs_demo_key_12345'' ''Bearer ''
   \<and> drop 7 ''Bearer Bearer gs_demo_key_12345'' = ''Bearer gs_demo_key_12345''
   \<and> api_key_of ''Bearer Bearer gs_demo_key_12345'' = ''gs_demo_key_12345''
   \<and> verify_api_key demo_env (Some ''Bearer Bearer gs_demo_key_12345'') empty_store
       = (Inr demo_principal, empty_store)
   \<and> verify_api_key demo_env (Some ''Bearer gs_demo_key_12345'') empty_store
       = (Inr demo_principal, empty_store)"
  by (simp add: verify_api_key_def startswith_def doubled_scheme_key demo_key_of_header
      demo_env_no_database)

subsection \<open>Authentication\<close>

lemma post_generate_rejected:
  "verify_api_key ev authorization db = (Inl f, db1) \<Longrightarrow>
     post_generate ev U authorization body db = (Inl f, db1)"
  by (simp add: post_generate_def)

lemma post_batch_rejected:
  "verify_api_key ev authorization db = (Inl f, db1) \<Longrightarrow>
     post_batch ev U authorization body db = (Inl f, db1)"
  by (simp add: post_batch_def)

lemma status_rejected: "status (Inl f, db) = status_code f"
  by (simp add: status_def)

lemma db_verify_not_resolvable:
  "\<not> resolvable db key \<Longrightarrow> fst (db_verify_api_key ev key db) = None"
  by (auto simp: db_verify_api_key_def resolvable_def select_api_keys_def select_users_def
      select_subscriptions_def update_last_used_def execute_def Let_def
      split: list.splits prod.splits option.splits if_splits)

text \<open>The failures of authentication, on the key that the code looks up (\<open>api_key_of\<close>, the
  header without any occurrence of \<^verbatim>\<open>Bearer \<close>). On both authenticated endpoints: a request
  without an Authorization header is answered 401; one whose header does not start with
  \<^verbatim>\<open>Bearer \<close> is answered 401; one whose looked-up key does not resolve (no active API-key
  record with its user and an active subscription for the digest of that key or, in demo
  mode, a looked-up key other than the demo key) is answered 403.\<close>

theorem authentication_failures:
  "(authorization = None \<longrightarrow>
      status (post_generate ev U authorization gb db) = 401
    \<and> status (post_batch ev U authorization bb db) = 401)
 \<and> (\<forall>a. authorization = Some a \<and> \<not> startswith a ''Bearer '' \<longrightarrow>
      status (post_generate ev U authorization gb db) = 401
    \<and> status (post_batch ev U authorization bb db) = 401)
 \<and> (\<forall>a. authorization = Some a \<and> startswith a ''Bearer '' \<and> DATABASE_AVAILABLE ev
        \<and> \<not> resolvable db (api_key_of a) \<longrightarrow>
      status (post_generate ev U authorization gb db) = 403
    \<and> status (post_batch ev U authorization bb db) = 403)
 \<and> (\<forall>a. authorization = Some a \<and> startswith a ''Bearer '' \<and> \<not> DATABASE_AVAILABLE ev
        \<and> api_key_of a \<noteq> ''gs_demo_key_12345'' \<longrightarrow>
      status (post_generate ev U authorization gb db) = 403
    \<and> status (post_batch ev U authorization bb db) = 403)"
proof -
  have absent: "verify_api_key ev None db = (Inl missing_key, db)"
    by (simp add: verify_api_key_def)
  have malformed: "\<exists>f. verify_api_key ev (Some a) db = (Inl f, db) \<and> status_code f = 401"
    if "\<not> startswith a ''Bearer ''" for a
    using that by (simp add: verify_api_key_def missing_key_def invalid_format_def)
  have unknown: "\<exists>db1. verify_api_key ev (Some a) db = (Inl invalid_key, db1)"
    if sw: "startswith a ''Bearer ''" and da: "DATABASE_AVAILABLE ev"
      and nr: "\<not> resolvable db (api_key_of a)" for a
  proof -
    have "a \<noteq> []" using sw by (auto simp: startswith_def)
    moreover obtain db1 where "db_verify_api_key ev (api_key_of a) db = (None, db1)"
      using db_verify_not_resolvable [OF nr, of ev]
      by (cases "db_verify_api_key ev (api_key_of a) db") auto
    ultimately show ?thesis
      using sw da by (simp add: verify_api_key_def)
  qed
  have demo: "verify_api_key ev (Some a) db = (Inl invalid_demo_key, db)"
    if "startswith a ''Bearer ''" and "\<not> DATABASE_AVAILABLE ev"
      and "api_key_of a \<noteq> ''gs_demo_key_12345''"
    for a
  proof -
    have "a \<noteq> []" using that(1) by (auto simp: startswith_def)
    then show ?thesis using that by (simp add: verify_api_key_def)
  qed
  have c1: "authorization = None \<longrightarrow>
      status (post_generate ev U authorization gb db) = 401
    \<and> status (post_batch ev U authorization bb db) = 401"
    by (simp add: post_generate_rejected [OF absent] post_batch_rejected [OF absent]
        status_rejected missing_key_def)
  have c2: "\<forall>a. authorization = Some a \<and> \<not> startswith a ''Bearer '' \<longrightarrow>
      status (post_generate ev U authorization gb db) = 401
    \<and> status (post_batch ev U authorization bb db) = 401"
  proof (intro allI impI)
    fix a assume h: "authorization = Some a \<and> \<not> startswith a ''Bearer ''"
    then obtain f where "verify_api_key ev (Some a) db = (Inl f, db)" "status_code f = 401"
      using malformed by blast
    then show "status (post_generate ev U authorization gb db) = 401
        \<and> status (post_batch ev U authorization bb db) = 401"
      using h by (simp add: post_generate_rejected post_batch_rejected status_rejected)
  qed
  have c3: "\<forall>a. authorization = Some a \<and> startswith a ''Bearer '' \<and> DATABASE_AVAILABLE ev
        \<and> \<not> resolvable db (api_key_of a) \<longrightarrow>
      status (post_generate ev U authorization gb db) = 403
    \<and> status (post_batch ev U authorization bb db) = 403"
  proof (intro allI impI)
    fix a assume h: "authorization = Some a \<and> startswith a ''Bearer '' \<and> DATABASE_AVAILABLE ev
        \<and> \<not> resolvable db (api_key_of a)"
    then obtain db1 where "verify_api_key ev (Some a) db = (Inl invalid_key, db1)"
      using unknown by blast
    then show "status (post_generate ev U authorization gb db) = 403
        \<and> status (post_batch ev U authorization bb db) = 403"
      using h by (simp add: post_generate_rejected post_batch_rejected status_rejected
          invalid_key_def)
  qed
  have c4: "\<forall>a. authorization = Some a \<and> startswith a ''Bearer '' \<and> \<not> DATABASE_AVAILABLE ev
        \<and> api_key_of a \<noteq> ''gs_demo_key_12345'' \<longrightarrow>
      status (post_generate ev U authorization gb db) = 403
    \<and> status (post_batch ev U authorization bb db) = 403"
  proof (intro allI impI)
    fix a assume h: "authorization = Some a \<and> startswith a ''Bearer '' \<and> \<not> DATABASE_AVAILABLE ev
        \<and> api_key_of a \<noteq> ''gs_demo_key_12345''"
    then have "verify_api_key ev (Some a) db = (Inl invalid_demo_key, db)"
      using demo by blast
    then show "status (post_generate ev U authorization gb db) = 403
        \<and> status (post_batch ev U authorization bb db) = 403"
      using h by (simp add: post_generate_rejected post_batch_rejected status_rejected
          invalid_demo_key_def)
  qed
  show ?thesis using c1 c2 c3 c4 by blast
qed


lemma unknown_key_of_header: "api_key_of ''Bearer gs_unknown'' = ''gs_unknown''"
  by code_simp

lemma db_env_flags: "DATABASE_AVAILABLE db_env" "supabase db_env"
  by (simp_all add: db_env_def)

theorem authentication_failures_witness:
  "status (post_generate db_env (Some counter_qkd) None
       \<lparr>body_seed = None, body_chunks = None, body_format = None, body_skip = None\<rparr>
       empty_store) = 401
 \<and> status (post_batch db_env (Some counter_qkd) None
       \<lparr>body_seeds = Some [0], body_chunks_per_seed = None\<rparr> empty_store) = 401
 \<and> \<not> startswith ''Basic dXNlcg=='' ''Bearer ''
 \<and> status (post_generate db_env (Some counter_qkd) (Some ''Basic dXNlcg=='')
       \<lparr>body_seed = None, body_chunks = None, body_format = None, body_skip = None\<rparr>
       empty_store) = 401
 \<and> startswith ''Bearer gs_unknown'' ''Bearer '' \<and> DATABASE_AVAILABLE db_env
 \<and> \<not> resolvable empty_store (api_key_of ''Bearer gs_unknown'')
 \<and> status (post_generate db_env (Some counter_qkd) (Some ''Bearer gs_unknown'')
       \<lparr>body_seed = None, body_chunks = None, body_format = None, body_skip = None\<rparr>
       empty_store) = 403
 \<and> \<not> DATABASE_AVAILABLE demo_env \<and> api_key_of ''Bearer gs_unknown'' \<noteq> ''gs_demo_key_12345''
 \<and> status (post_batch demo_env (Some counter_qkd) (Some ''Bearer gs_unknown'')
       \<lparr>body_seeds = Some [0], body_chunks_per_seed = None\<rparr> empty_store) = 403"
proof -
  let ?gb = "\<lparr>body_seed = None, body_chunks = None, body_format = None, body_skip = None\<rparr>"
  let ?bb = "\<lparr>body_seeds = Some [0], body_chunks_per_seed = None\<rparr>"
  have basic: "\<not> startswith ''Basic dXNlcg=='' ''Bearer ''"
    by (simp add: startswith_def)
  have bearer: "startswith ''Bearer gs_unknown'' ''Bearer ''"
    by (simp add: startswith_def)
  have unknown: "\<not> resolvable empty_store (api_key_of ''Bearer gs_unknown'')"
    by (simp add: resolvable_def empty_store_def)
  have other: "api_key_of ''Bearer gs_unknown'' \<noteq> ''gs_demo_key_12345''"
    by (simp add: unknown_key_of_header)
  note a = authentication_failures [where authorization = None and ev = db_env
      and U = "Some counter_qkd" and gb = ?gb and bb = ?bb and db = empty_store]
  note b = authentication_failures [where authorization = "Some ''Basic dXNlcg==''"
      and ev = db_env and U = "Some counter_qkd" and gb = ?gb and bb = ?bb and db = empty_store]
  note c = authentication_failures [where authorization = "Some ''Bearer gs_unknown''"
      and ev = db_env and U = "Some counter_qkd" and gb = ?gb and bb = ?bb and db = empty_store]
  note d = authentication_failures [where authorization = "Some ''Bearer gs_unknown''"
      and ev = demo_env and U = "Some counter_qkd" and gb = ?gb and bb = ?bb and db = empty_store]
  from a have "status (post_generate db_env (Some counter_qkd) None ?gb empty_store) = 401"
    and "status (post_batch db_env (Some counter_qkd) None ?bb empty_store) = 401"
    by blast+
  moreover from b basic
  have "status (post_generate db_env (Some counter_qkd) (Some ''Basic dXNlcg=='') ?gb
          empty_store) = 401"
    by blast
  moreover from c bearer unknown db_env_flags(1)
  have "status (post_generate db_env (Some counter_qkd) (Some ''Bearer gs_unknown'') ?gb
          empty_store) = 403"
    by blast
  moreover from d bearer other demo_env_no_database
  have "status (post_batch demo_env (Some counter_qkd) (Some ''Bearer gs_unknown'') ?bb
          empty_store) = 403"
    by blast
  ultimately show ?thesis
    using basic bearer unknown other db_env_flags(1) demo_env_no_database by blast
qed

subsection \<open>Rate limit and quota\<close>

lemma check_rate_limit_calls:
  "supabase ev \<Longrightarrow>
     calls (snd (check_rate_limit ev uid limit db)) = calls db @ [RpcRateLimit uid limit]"
  by (simp add: check_rate_limit_def execute_def Let_def)

lemma get_monthly_usage_calls:
  "supabase ev \<Longrightarrow>
     calls (snd (get_monthly_usage ev uid db)) = calls db @ [RpcMonthlyUsage uid]"
  by (simp add: get_monthly_usage_def execute_def Let_def)

lemma check_limits_quota:
  assumes "check_rate_limit ev (user_id user) (rate_limit user) db1 = (True, db2)"
    and "get_monthly_usage ev (user_id user) db2 = (usage, db3)"
    and "chunks_limit user \<le> usage"
  shows "check_limits ev user db1 = (Inl (quota_exceeded (chunks_limit user)), db3)"
  using assms by (simp add: check_limits_def)

text \<open>Claim C3. When the key resolves, the rate-limit check passes and the monthly usage
  is at least the \<^verbatim>\<open>chunks_limit\<close> of the subscription, the request is answered 429 with
  the quota message, which carries the limit; the store is asked for the usage after it
  was asked for the rate limit.\<close>

theorem quota_exceeded_after_rate_limit:
  assumes "DATABASE_AVAILABLE ev" and "startswith a ''Bearer ''"
    and "db_verify_api_key ev (api_key_of a) db = (Some user, db1)"
    and "check_rate_limit ev (user_id user) (rate_limit user) db1 = (True, db2)"
    and "get_monthly_usage ev (user_id user) db2 = (usage, db3)"
    and "chunks_limit user \<le> usage"
  shows "verify_api_key ev (Some a) db =
           (Inl (HTTPException 429 (Text (''Monthly chunk limit exceeded. Limit: ''
                   @ format_commas (chunks_limit user)
                   @ '' chunks. Upgrade at https://goldenseed.io/pricing''))), db3)
       \<and> status (post_generate ev U (Some a) gb db) = 429
       \<and> status (post_batch ev U (Some a) bb db) = 429
       \<and> (supabase ev \<longrightarrow>
            calls db3 = calls db1 @ [RpcRateLimit (user_id user) (rate_limit user),
                                    RpcMonthlyUsage (user_id user)])"
proof -
  have "a \<noteq> []" using assms(2) by (auto simp: startswith_def)
  then have v: "verify_api_key ev (Some a) db = (Inl (quota_exceeded (chunks_limit user)), db3)"
    using assms(1-3) check_limits_quota [OF assms(4-6)] by (simp add: verify_api_key_def)
  have "calls db3 = calls db1 @ [RpcRateLimit (user_id user) (rate_limit user),
                                    RpcMonthlyUsage (user_id user)]" if "supabase ev"
    using check_rate_limit_calls [OF that, of "user_id user" "rate_limit user" db1]
      get_monthly_usage_calls [OF that, of "user_id user" db2] assms(4,5)
    by simp
  then show ?thesis
    using v
    by (simp add: post_generate_rejected [OF v] post_batch_rejected [OF v] status_rejected
        quota_exceeded_def)
qed


lemma live_key_of_header: "api_key_of ''Bearer gs_live_key'' = ''gs_live_key''"
  by code_simp

lemma live_select_api_keys: "select_api_keys (hash_api_key ''gs_live_key'') (live_store n) = 
  (Some (api_keys (live_store n)), (live_store n)\<lparr>calls := [SelectApiKeys (hash_api_key ''gs_live_key'')]\<rparr>)"
  by (simp add: select_api_keys_def execute_def live_store_def)

lemma live_select_users: "select_users ''u1'' ((live_store n)\<lparr>calls := [SelectApiKeys (hash_api_key ''gs_live_key'')]\<rparr>) = 
  (Some (users (live_store n)), (live_store n)\<lparr>calls := [SelectApiKeys (hash_api_key ''gs_live_key''), SelectUsers ''u1'']\<rparr>)"
  by (simp add: select_users_def execute_def live_store_def)

lemma live_select_subscriptions: "select_subscriptions ''u1'' ((live_store n)\<lparr>calls := [SelectApiKeys (hash_api_key ''gs_live_key''), SelectUsers ''u1'']\<rparr>) = 
  (Some (subscriptions (live_store n)), (live_store n)\<lparr>calls := [SelectApiKeys (hash_api_key ''gs_live_key''), SelectUsers ''u1'', SelectSubscriptions ''u1'']\<rparr>)"
  by (simp add: select_subscriptions_def execute_def live_store_def)

lemma live_update_last_used: "update_last_used ''k1'' ''2024-01-01T00:00:00'' ((live_store n)\<lparr>calls := [SelectApiKeys (hash_api_key ''gs_live_key''), SelectUsers ''u1'', SelectSubscriptions ''u1'']\<rparr>) = 
  (Some (), resolved_store n)"
  by (simp add: update_last_used_def execute_def live_store_def resolved_store_def)

lemma live_tables: 
  "api_keys (live_store n) = [\<lparr>key_id = ''k1'', key_user_id = ''u1'', key_hash = hash_api_key ''gs_live_key'',
                  key_active = True, last_used_at = None\<rparr>]"
  "users (live_store n) = [\<lparr>usr_id = ''u1'', usr_email = ''dev@example.org''\<rparr>]"
  "subscriptions (live_store n) = [\<lparr>sub_user_id = ''u1'', sub_tier = ''free'', sub_chunks_limit = 10000,
                       sub_rate_limit = 100, sub_active = True\<rparr>]"
  by (simp_all add: live_store_def)

lemma live_resolution:
  "db_verify_api_key db_env ''gs_live_key'' (live_store n) = (Some live_principal, resolved_store n)"
  by (simp add: db_verify_api_key_def db_env_flags live_select_api_keys live_select_users
      live_select_subscriptions live_update_last_used live_tables live_principal_def Let_def db_env_def)

lemma resolved_fields:
  "calls (resolved_store n) = [SelectApiKeys (hash_api_key ''gs_live_key''), SelectUsers ''u1'',
               SelectSubscriptions ''u1'', UpdateLastUsed ''k1'']"
  "raises (resolved_store n) = (\<lambda>k. False)"
  "rate_limit_rpc (resolved_store n) = (\<lambda>u l. Some True)"
  "monthly_usage_rpc (resolved_store n) = (\<lambda>u. Some n)"
  by (simp_all add: resolved_store_def live_store_def)

lemma live_rate_limit:
  "check_rate_limit db_env ''u1'' 100 (resolved_store n) =
     (True, (resolved_store n)\<lparr>calls := calls (resolved_store n) @ [RpcRateLimit ''u1'' 100]\<rparr>)"
  by (simp add: check_rate_limit_def execute_def Let_def db_env_flags resolved_fields)


lemma live_usage:
  "get_monthly_usage db_env ''u1''
     ((resolved_store n)\<lparr>calls := calls (resolved_store n) @ [RpcRateLimit ''u1'' 100]\<rparr>) =
     (n, admitted_store n)"
  by (simp add: get_monthly_usage_def execute_def Let_def db_env_flags resolved_fields
      admitted_store_def)

lemma format_sample_limit: "format_commas 10000 = ''10,000''"
  by (simp add: format_commas_def str_nat.simps group3.simps digit_def)

lemma live_principal_fields:
  "user_id live_principal = ''u1''" "api_key_id live_principal = ''k1''"
  "rate_limit live_principal = 100" "chunks_limit live_principal = 10000"
  by (simp_all add: live_principal_def)

theorem quota_exceeded_after_rate_limit_witness:
  "verify_api_key db_env (Some ''Bearer gs_live_key'') (live_store 10000) =
     (Inl (HTTPException 429 (Text
        ''Monthly chunk limit exceeded. Limit: 10,000 chunks. Upgrade at https://goldenseed.io/pricing'')),
      admitted_store 10000)
 \<and> status (post_generate db_env (Some counter_qkd) (Some ''Bearer gs_live_key'')
       \<lparr>body_seed = None, body_chunks = None, body_format = None, body_skip = None\<rparr>
       (live_store 10000)) = 429
 \<and> status (post_batch db_env (Some counter_qkd) (Some ''Bearer gs_live_key'')
       \<lparr>body_seeds = Some [0], body_chunks_per_seed = None\<rparr> (live_store 10000)) = 429
 \<and> calls (admitted_store 10000) =
     calls (resolved_store 10000) @ [RpcRateLimit ''u1'' 100, RpcMonthlyUsage ''u1'']"
proof -
  have sw: "startswith ''Bearer gs_live_key'' ''Bearer ''"
    by (simp add: startswith_def)
  have res: "db_verify_api_key db_env (api_key_of ''Bearer gs_live_key'') (live_store 10000)
      = (Some live_principal, resolved_store 10000)"
    by (simp add: live_key_of_header live_resolution)
  have rate: "check_rate_limit db_env (user_id live_principal) (rate_limit live_principal)
      (resolved_store 10000) = (True, (resolved_store 10000)\<lparr>calls :=
         calls (resolved_store 10000) @ [RpcRateLimit ''u1'' 100]\<rparr>)"
    by (simp add: live_principal_fields live_rate_limit)
  have usage: "get_monthly_usage db_env (user_id live_principal)
      ((resolved_store 10000)\<lparr>calls := calls (resolved_store 10000) @ [RpcRateLimit ''u1'' 100]\<rparr>)
      = (10000, admitted_store 10000)"
    by (simp add: live_principal_fields live_usage)
  have over: "chunks_limit live_principal \<le> 10000"
    by (simp add: live_principal_fields)
  note q = quota_exceeded_after_rate_limit [OF db_env_flags(1) sw res rate usage over,
      where U = "Some counter_qkd"
        and gb = "\<lparr>body_seed = None, body_chunks = None, body_format = None, body_skip = None\<rparr>"
        and bb = "\<lparr>body_seeds = Some [0], body_chunks_per_seed = None\<rparr>"]
  have msg: "''Monthly chunk limit exceeded. Limit: '' @ format_commas 10000
      @ '' chunks. Upgrade at https://goldenseed.io/pricing''
    = ''Monthly chunk limit exceeded. Limit: 10,000 chunks. Upgrade at https://goldenseed.io/pricing''"
    by (simp only: format_sample_limit append.simps)
  from q [unfolded live_principal_fields msg] db_env_flags(2) show ?thesis
    by blast
qed

subsection \<open>Key resolution and the last-used timestamp\<close>

lemma stale_fields:
  "api_keys stale_store = api_keys (live_store 0)"
  "users stale_store = users (live_store 0)"
  "subscriptions stale_store = subscriptions (live_store 0)"
  "calls stale_store = []"
  "raises stale_store = (\<lambda>k. k = 3)"
  by (simp_all add: stale_store_def live_store_def)

lemma db_verify_steps:
  assumes "supabase ev"
    and "filter (\<lambda>r. key_hash r = hash_api_key key \<and> key_active r) (api_keys db)
           = key_record # other_keys"
    and "filter (\<lambda>r. usr_id r = key_user_id key_record) (users db) = user # other_users"
    and "filter (\<lambda>r. sub_user_id r = key_user_id key_record \<and> sub_active r) (subscriptions db)
           = subscription # other_subscriptions"
    and "\<not> raises db (length (calls db))"
    and "\<not> raises db (length (calls db) + 1)"
    and "\<not> raises db (length (calls db) + 2)"
  shows "fst (db_verify_api_key ev key db) =
     (if raises db (length (calls db) + 3) then None
      else Some \<lparr>user_id = key_user_id key_record, api_key_id = key_id key_record,
                  email = usr_email user, tier = sub_tier subscription,
                  chunks_limit = sub_chunks_limit subscription,
                  rate_limit = sub_rate_limit subscription\<rparr>)"
  using assms
  by (simp add: db_verify_api_key_def select_api_keys_def select_users_def
      select_subscriptions_def update_last_used_def execute_def Let_def numeral_3_eq_3)

lemma sample_key_rows:
  "db = live_store 0 \<or> db = stale_store \<Longrightarrow>
   filter (\<lambda>r. key_hash r = hash_api_key ''gs_live_key'' \<and> key_active r) (api_keys db)
     = hd (api_keys (live_store 0)) # []"
  by (auto simp: stale_fields live_tables)

lemma sample_user_rows:
  "db = live_store 0 \<or> db = stale_store \<Longrightarrow>
   filter (\<lambda>r. usr_id r = key_user_id (hd (api_keys (live_store 0)))) (users db)
     = hd (users (live_store 0)) # []"
  by (auto simp: stale_fields live_tables)

lemma sample_subscription_rows:
  "db = live_store 0 \<or> db = stale_store \<Longrightarrow>
   filter (\<lambda>r. sub_user_id r = key_user_id (hd (api_keys (live_store 0))) \<and> sub_active r)
          (subscriptions db)
     = [hd (subscriptions (live_store 0))]"
  by (auto simp: stale_fields live_tables)

lemma stale_answers:
  "\<not> raises stale_store (length (calls stale_store))"
  "\<not> raises stale_store (length (calls stale_store) + 1)"
  "\<not> raises stale_store (length (calls stale_store) + 2)"
  "raises stale_store (length (calls stale_store) + 3)"
  by (simp_all add: stale_fields)

lemma stale_resolution: "fst (db_verify_api_key db_env ''gs_live_key'' stale_store) = None"
proof -
  have stale: "stale_store = live_store 0 \<or> stale_store = stale_store" by simp
  show ?thesis
    using db_verify_steps [OF db_env_flags(2) sample_key_rows [OF stale]
        sample_user_rows [OF stale] sample_subscription_rows [OF stale] stale_answers(1-3)]
      stale_answers(4)
    by simp
qed

text \<open>Claim C5, as the code has it. For a key whose digest matches an active API-key row
  with an existing user and exactly one active subscription, and whose three lookups are
  answered, resolution returns the Principal when the update of \<^verbatim>\<open>last_used_at\<close> is
  answered, and \<^verbatim>\<open>None\<close> when that update raises.\<close>

theorem resolution_depends_on_last_used_update:
  assumes "supabase ev"
    and "filter (\<lambda>r. key_hash r = hash_api_key key \<and> key_active r) (api_keys db)
           = key_record # other_keys"
    and "filter (\<lambda>r. usr_id r = key_user_id key_record) (users db) = user # other_users"
    and "filter (\<lambda>r. sub_user_id r = key_user_id key_record \<and> sub_active r) (subscriptions db)
           = [subscription]"
    and "\<not> raises db (length (calls db))"
    and "\<not> raises db (length (calls db) + 1)"
    and "\<not> raises db (length (calls db) + 2)"
  shows "fst (db_verify_api_key ev key db) =
     (if raises db (length (calls db) + 3) then None
      else Some \<lparr>user_id = key_user_id key_record, api_key_id = key_id key_record,
                  email = usr_email user, tier = sub_tier subscription,
                  chunks_limit = sub_chunks_limit subscription,
                  rate_limit = sub_rate_limit subscription\<rparr>)"
  using assms by (rule db_verify_steps)

theorem resolution_depends_on_last_used_update_witness:
  "fst (db_verify_api_key db_env ''gs_live_key'' (live_store 0)) = Some live_principal
 \<and> fst (db_verify_api_key db_env ''gs_live_key'' stale_store) = None"
proof -
  have fine: "\<not> raises (live_store 0) (length (calls (live_store 0)))"
    "\<not> raises (live_store 0) (length (calls (live_store 0)) + 1)"
    "\<not> raises (live_store 0) (length (calls (live_store 0)) + 2)"
    "\<not> raises (live_store 0) (length (calls (live_store 0)) + 3)"
    by (simp_all add: live_store_def)
  have live: "live_store 0 = live_store 0 \<or> live_store 0 = stale_store"
    and stale: "stale_store = live_store 0 \<or> stale_store = stale_store"
    by simp_all
  have "fst (db_verify_api_key db_env ''gs_live_key'' (live_store 0)) = Some live_principal"
    using resolution_depends_on_last_used_update [OF db_env_flags(2) sample_key_rows [OF live]
        sample_user_rows [OF live] sample_subscription_rows [OF live] fine(1-3)] fine(4)
    by (simp add: live_tables live_principal_def)
  moreover have "fst (db_verify_api_key db_env ''gs_live_key'' stale_store) = None"
    using resolution_depends_on_last_used_update [OF db_env_flags(2) sample_key_rows [OF stale]
        sample_user_rows [OF stale] sample_subscription_rows [OF stale] stale_answers(1-3)]
      stale_answers(4)
    by simp
  ultimately show ?thesis by blast
qed

text \<open>Claim C5, as stated, fails: in \<open>stale_store\<close> the key \<^verbatim>\<open>gs_live_key\<close> has an active
  row, its user and one active subscription, the three lookups are answered and only the
  update of \<^verbatim>\<open>last_used_at\<close> raises; the key is not resolved and the request is answered
  403.\<close>

theorem last_used_failure_rejects_key:
  "resolvable stale_store ''gs_live_key''
 \<and> length (subscriptions stale_store) = 1
 \<and> \<not> raises stale_store 0 \<and> \<not> raises stale_store 1 \<and> \<not> raises stale_store 2
 \<and> raises stale_store 3
 \<and> fst (db_verify_api_key db_env ''gs_live_key'' stale_store) = None
 \<and> status (verify_api_key db_env (Some ''Bearer gs_live_key'') stale_store) = 403"
proof -
  have none: "fst (db_verify_api_key db_env ''gs_live_key'' stale_store) = None"
    by (rule stale_resolution)
  then obtain db1 where "db_verify_api_key db_env ''gs_live_key'' stale_store = (None, db1)"
    by (cases "db_verify_api_key db_env ''gs_live_key'' stale_store") auto
  then have "verify_api_key db_env (Some ''Bearer gs_live_key'') stale_store = (Inl invalid_key, db1)"
    by (simp add: verify_api_key_def startswith_def live_key_of_header db_env_flags)
  then have "status (verify_api_key db_env (Some ''Bearer gs_live_key'') stale_store) = 403"
    by (simp add: status_rejected invalid_key_def)
  moreover have "resolvable stale_store ''gs_live_key''"
    by (simp add: resolvable_def stale_fields live_tables)
  ultimately show ?thesis
    using none by (simp add: stale_fields live_tables)
qed

subsection \<open>The usage log\<close>

lemma admitted_fields:
  "calls (admitted_store n) = [SelectApiKeys (hash_api_key ''gs_live_key''), SelectUsers ''u1'',
      SelectSubscriptions ''u1'', UpdateLastUsed ''k1'', RpcRateLimit ''u1'' 100,
      RpcMonthlyUsage ''u1'']"
  "raises (admitted_store n) = (\<lambda>k. False)"
  "usage_logs (admitted_store n) = []"
  by (simp_all add: admitted_store_def resolved_store_def live_store_def)

lemma live_admission:
  assumes "n < 10000"
  shows "verify_api_key db_env (Some ''Bearer gs_live_key'') (live_store n)
         = (Inr live_principal, admitted_store n)"
proof -
  have "check_limits db_env live_principal (resolved_store n) = (Inr live_principal, admitted_store n)"
    using assms by (simp add: check_limits_def live_principal_fields live_rate_limit live_usage)
  then show ?thesis
    by (simp add: verify_api_key_def startswith_def live_key_of_header db_env_flags
        live_resolution)
qed

lemma produce_first_chunk:
  "produce counter_qkd \<lparr>seed = 0, chunks = 1, format = f, skip = 0\<rparr>
     = Inr [[0, 1, 2, 3, 4, 5, 6, 7, 8, 9, 10, 11, 12, 13, 14, 15]]"
  by (simp add: produce_def counter_qkd_def)

lemma log_usage_admitted:
  "log_usage db_env uid kid endpoint c ms st (admitted_store n) =
     (admitted_store n)\<lparr>calls := calls (admitted_store n) @ [InsertUsageLog],
        usage_logs := [\<lparr>log_user_id = uid, log_api_key_id = kid, log_endpoint = endpoint,
                        log_chunks_generated = c, log_response_time_ms = ms,
                        log_status_code = st\<rparr>]\<rparr>"
  by (simp add: log_usage_def execute_def Let_def db_env_flags admitted_fields)

lemma db_env_elapsed: "elapsed_ms db_env = 3"
  by (simp add: db_env_def)

text \<open>Claim C10. A request for the format \<^verbatim>\<open>json\<close> with a valid key is answered 500,
  because the response model rejects the lists of integers, after its usage entry with
  status 200 was appended.\<close>

theorem json_request_logged_then_fails:
  "usage_logs (live_store 0) = []
 \<and> fst (post_generate db_env (Some counter_qkd) (Some ''Bearer gs_live_key'')
       \<lparr>body_seed = None, body_chunks = Some 1, body_format = Some ''json'', body_skip = None\<rparr>
       (live_store 0))
     = Inl (HTTPException 500 (Generation_failed ValidationError))
 \<and> usage_logs (snd (post_generate db_env (Some counter_qkd) (Some ''Bearer gs_live_key'')
       \<lparr>body_seed = None, body_chunks = Some 1, body_format = Some ''json'', body_skip = None\<rparr>
       (live_store 0)))
     = [\<lparr>log_user_id = ''u1'', log_api_key_id = ''k1'', log_endpoint = ''/api/v1/generate'',
         log_chunks_generated = 1, log_response_time_ms = 3, log_status_code = 200\<rparr>]"
proof -
  let ?body = "\<lparr>body_seed = None, body_chunks = Some 1, body_format = Some ''json'',
                body_skip = None\<rparr>"
  let ?row = "\<lparr>log_user_id = ''u1'', log_api_key_id = ''k1'', log_endpoint = ''/api/v1/generate'',
         log_chunks_generated = 1, log_response_time_ms = 3, log_status_code = 200\<rparr>"
  have parse: "parse_generate_body ?body = Inr \<lparr>seed = 0, chunks = 1, format = ''json'', skip = 0\<rparr>"
    by (simp add: parse_generate_body_def mk_GenerateRequest_def)
  have report: "report_usage db_env \<lparr>seed = 0, chunks = 1, format = ''json'', skip = 0\<rparr>
       (Dict live_principal) (admitted_store 0)
     = (None, (admitted_store 0)\<lparr>calls := calls (admitted_store 0) @ [InsertUsageLog],
                                   usage_logs := [?row]\<rparr>)"
    by (simp add: report_usage_def db_env_flags live_principal_fields log_usage_admitted
        db_env_elapsed)
  have "post_generate db_env (Some counter_qkd) (Some ''Bearer gs_live_key'') ?body (live_store 0)
      = (Inl (HTTPException 500 (Generation_failed ValidationError)),
         (admitted_store 0)\<lparr>calls := calls (admitted_store 0) @ [InsertUsageLog],
                              usage_logs := [?row]\<rparr>)"
    by (simp add: post_generate_def live_admission parse generate_def try_generate_def
        produce_first_chunk format_output_def report mk_GenerateResponse_def Let_def)
  then show ?thesis
    by (simp add: live_store_def)
qed


lemma db_verify_usage_logs: "usage_logs (snd (db_verify_api_key ev key db)) = usage_logs db"
  by (simp add: db_verify_api_key_def select_api_keys_def select_users_def
      select_subscriptions_def update_last_used_def execute_def Let_def
      split: list.splits prod.splits option.splits)

lemma check_limits_usage_logs: "usage_logs (snd (check_limits ev user db)) = usage_logs db"
  by (simp add: check_limits_def check_rate_limit_def get_monthly_usage_def execute_def Let_def
      split: prod.splits)

lemma verify_usage_logs: "usage_logs (snd (verify_api_key ev authorization db)) = usage_logs db"
proof -
  have "usage_logs (snd (case db_verify_api_key ev key db of
            (None, db1) \<Rightarrow> (Inl invalid_key, db1)
          | (Some user, db1) \<Rightarrow> check_limits ev user db1)) = usage_logs db" for key
    using db_verify_usage_logs [of ev key db]
    by (cases "db_verify_api_key ev key db") (auto simp: check_limits_usage_logs split: option.splits)
  then show ?thesis
    by (simp add: verify_api_key_def Let_def split: option.splits)
qed

lemma log_usage_usage_logs:
  "usage_logs (log_usage ev uid kid endpoint c ms st db) = usage_logs db
 \<or> usage_logs (log_usage ev uid kid endpoint c ms st db) = usage_logs db @
       [\<lparr>log_user_id = uid, log_api_key_id = kid, log_endpoint = endpoint,
         log_chunks_generated = c, log_response_time_ms = ms, log_status_code = st\<rparr>]"
  by (simp add: log_usage_def execute_def Let_def)

lemma generate_usage_logs:
  assumes "generate ev U request req (Dict user) db = (x, db')"
  shows "usage_logs db' = usage_logs db
       \<or> usage_logs db' = usage_logs db @
            [\<lparr>log_user_id = user_id user, log_api_key_id = api_key_id user,
              log_endpoint = ''/api/v1/generate'', log_chunks_generated = chunks request,
              log_response_time_ms = elapsed_ms ev, log_status_code = 200\<rparr>]
           \<and> (format request \<noteq> ''json'' \<longrightarrow> (\<exists>r. x = Inr r))"
proof (cases U)
  case None
  then show ?thesis using assms by (simp add: generate_def)
next
  case (Some q)
  show ?thesis
  proof (cases "produce q request")
    case (Inl e)
    then show ?thesis using assms Some by (simp add: generate_def try_generate_def)
  next
    case (Inr cs)
    note l = log_usage_usage_logs [of ev "user_id user" "api_key_id user" "''/api/v1/generate''"
        "chunks request" "elapsed_ms ev" 200 db]
    show ?thesis
      using assms Some Inr l
      by (auto simp: generate_def try_generate_def report_usage_def format_output_def
          mk_GenerateResponse_def Let_def split: if_splits list.splits sum.splits)
  qed
qed

text \<open>The part of claim C10 that the code keeps: a request appends at most one usage entry,
  it records the status 200 and the requested number of chunks, and for the formats
  \<^verbatim>\<open>hex\<close> and \<^verbatim>\<open>binary\<close> it is appended only when the request succeeds.\<close>

lemma usage_entry_of_request:
  assumes "post_generate ev U authorization body db = (x, db')"
  shows "usage_logs db' = usage_logs db
       \<or> (\<exists>request (user :: principal). parse_generate_body body = Inr request
            \<and> usage_logs db' = usage_logs db @
                 [\<lparr>log_user_id = user_id user, log_api_key_id = api_key_id user,
                   log_endpoint = ''/api/v1/generate'', log_chunks_generated = chunks request,
                   log_response_time_ms = elapsed_ms ev, log_status_code = 200\<rparr>]
            \<and> (format request \<noteq> ''json'' \<longrightarrow> (\<exists>r. x = Inr r)))"
proof (cases "verify_api_key ev authorization db")
  case (Pair a db1)
  have logs: "usage_logs db1 = usage_logs db"
    using verify_usage_logs [of ev authorization db] Pair by simp
  show ?thesis
  proof (cases a)
    case (Inl f)
    then show ?thesis using assms Pair logs by (simp add: post_generate_def)
  next
    case (Inr user)
    show ?thesis
    proof (cases "parse_generate_body body")
      case (Inl e)
      then show ?thesis using assms Pair Inr logs by (simp add: post_generate_def)
    next
      case request: (Inr request)
      then have "generate ev U request RequestObj (Dict user) db1 = (x, db')"
        using assms Pair Inr by (simp add: post_generate_def)
      from generate_usage_logs [OF this] show ?thesis
      proof
        assume "usage_logs db' = usage_logs db1"
        then show ?thesis using logs by simp
      next
        assume appended: "usage_logs db' = usage_logs db1 @
            [\<lparr>log_user_id = user_id user, log_api_key_id = api_key_id user,
              log_endpoint = ''/api/v1/generate'', log_chunks_generated = chunks request,
              log_response_time_ms = elapsed_ms ev, log_status_code = 200\<rparr>]
           \<and> (format request \<noteq> ''json'' \<longrightarrow> (\<exists>r. x = Inr r))"
        have "parse_generate_body body = Inr request
            \<and> usage_logs db' = usage_logs db @
                 [\<lparr>log_user_id = user_id user, log_api_key_id = api_key_id user,
                   log_endpoint = ''/api/v1/generate'', log_chunks_generated = chunks request,
                   log_response_time_ms = elapsed_ms ev, log_status_code = 200\<rparr>]
            \<and> (format request \<noteq> ''json'' \<longrightarrow> (\<exists>r. x = Inr r))"
          using appended request logs by simp
        then have "\<exists>request (user :: principal). parse_generate_body body = Inr request
            \<and> usage_logs db' = usage_logs db @
                 [\<lparr>log_user_id = user_id user, log_api_key_id = api_key_id user,
                   log_endpoint = ''/api/v1/generate'', log_chunks_generated = chunks request,
                   log_response_time_ms = elapsed_ms ev, log_status_code = 200\<rparr>]
            \<and> (format request \<noteq> ''json'' \<longrightarrow> (\<exists>r. x = Inr r))"
          by (intro exI)
        then show ?thesis by (rule disjI2)
      qed
    qed
  qed
qed


subsection \<open>Batches\<close>

lemma generate_response_independent:
  "fst (generate ev U request req auth db) = fst (generate ev U request req auth db0)"
  by (simp add: generate_def try_generate_def report_usage_def Let_def
      split: option.splits sum.splits prod.splits)

lemma generate_calls:
  "calls (snd (generate ev U request req auth db)) = calls db
 \<or> calls (snd (generate ev U request req auth db)) = calls db @ [InsertUsageLog]"
  by (simp add: generate_def try_generate_def report_usage_def log_usage_def execute_def Let_def
      split: option.splits sum.splits prod.splits)

lemma batch_loop_calls:
  "\<exists>logs. calls (snd (batch_loop ev U cps auth ss acc db)) = calls db @ logs
      \<and> set logs \<subseteq> {InsertUsageLog}"
proof (induction ss arbitrary: acc db)
  case Nil
  then show ?case by simp
next
  case (Cons s ss)
  show ?case
  proof (cases "mk_GenerateRequest s cps ''hex'' 0")
    case (Inl e)
    then show ?thesis by simp
  next
    case (Inr gen_request)
    obtain x db1 where g: "generate ev U gen_request auth DependsObj db = (x, db1)"
      by (cases "generate ev U gen_request auth DependsObj db") auto
    from generate_calls [of ev U gen_request auth DependsObj db] g
    obtain l1 where l1: "calls db1 = calls db @ l1" "set l1 \<subseteq> {InsertUsageLog}"
      by (cases "calls db1 = calls db") auto
    show ?thesis
    proof (cases x)
      case (Inl f)
      then show ?thesis using Inr g l1 by simp
    next
      case result: (Inr result)
      from Cons.IH [of "acc @ [result]" db1]
      obtain l2 where "calls (snd (batch_loop ev U cps auth ss (acc @ [result]) db1))
          = calls db1 @ l2" "set l2 \<subseteq> {InsertUsageLog}"
        by blast
      then have "calls (snd (batch_loop ev U cps auth (s # ss) acc db)) = calls db @ (l1 @ l2)
          \<and> set (l1 @ l2) \<subseteq> {InsertUsageLog}"
        using Inr g result l1 by simp
      then show ?thesis by blast
    qed
  qed
qed

lemma batch_loop_results:
  assumes "batch_loop ev U cps auth ss acc db = (Inr results, db')"
  shows "\<exists>new. results = acc @ new \<and> length new = length ss
      \<and> (\<forall>i < length ss. fst (generate ev U
              \<lparr>seed = ss ! i, chunks = cps, format = ''hex'', skip = 0\<rparr> auth DependsObj db0)
            = Inr (new ! i))"
  using assms
proof (induction ss arbitrary: acc db)
  case Nil
  then show ?case by simp
next
  case (Cons s ss)
  from Cons.prems obtain gen_request where mk: "mk_GenerateRequest s cps ''hex'' 0 = Inr gen_request"
    by (cases "mk_GenerateRequest s cps ''hex'' 0") auto
  then have rq: "gen_request = \<lparr>seed = s, chunks = cps, format = ''hex'', skip = 0\<rparr>"
    by (auto simp: mk_GenerateRequest_def split: if_splits)
  obtain x db1 where g: "generate ev U gen_request auth DependsObj db = (x, db1)"
    by (cases "generate ev U gen_request auth DependsObj db") auto
  with Cons.prems mk obtain result where x: "x = Inr result"
    by (cases x) auto
  have rest: "batch_loop ev U cps auth ss (acc @ [result]) db1 = (Inr results, db')"
    using Cons.prems mk g x by simp
  from Cons.IH [OF rest] obtain new where new: "results = (acc @ [result]) @ new"
    "length new = length ss"
    "\<forall>i < length ss. fst (generate ev U
        \<lparr>seed = ss ! i, chunks = cps, format = ''hex'', skip = 0\<rparr> auth DependsObj db0)
      = Inr (new ! i)"
    by blast
  have first: "fst (generate ev U \<lparr>seed = s, chunks = cps, format = ''hex'', skip = 0\<rparr>
      auth DependsObj db0) = Inr result"
    using generate_response_independent [of ev U gen_request auth DependsObj db0 db] g x rq
    by simp
  have "\<forall>i < length (s # ss). fst (generate ev U
        \<lparr>seed = (s # ss) ! i, chunks = cps, format = ''hex'', skip = 0\<rparr> auth DependsObj db0)
      = Inr ((result # new) ! i)"
  proof (intro allI impI)
    fix i assume "i < length (s # ss)"
    then show "fst (generate ev U
        \<lparr>seed = (s # ss) ! i, chunks = cps, format = ''hex'', skip = 0\<rparr> auth DependsObj db0)
      = Inr ((result # new) ! i)"
      using first new(3) by (cases i) auto
  qed
  moreover have "results = acc @ (result # new)" "length (result # new) = length (s # ss)"
    using new(1,2) by simp_all
  ultimately show ?case by blast
qed


lemma db_verify_Some_calls:
  assumes "db_verify_api_key ev key db = (Some user, db1)"
  shows "supabase ev \<and> calls db1 = calls db @
           [SelectApiKeys (hash_api_key key), SelectUsers (user_id user),
            SelectSubscriptions (user_id user), UpdateLastUsed (api_key_id user)]"
  using assms
  by (auto simp: db_verify_api_key_def select_api_keys_def select_users_def
      select_subscriptions_def update_last_used_def execute_def Let_def
      split: list.splits prod.splits option.splits if_splits)

lemma check_limits_Inr_calls:
  assumes "check_limits ev user db1 = (Inr u, db3)" and "supabase ev"
  shows "u = user \<and> calls db3 = calls db1 @
           [RpcRateLimit (user_id user) (rate_limit user), RpcMonthlyUsage (user_id user)]"
  using assms
  by (auto simp: check_limits_def check_rate_limit_def get_monthly_usage_def execute_def Let_def
      split: prod.splits if_splits)

lemma verify_Inr_calls:
  assumes "verify_api_key ev authorization db = (Inr user, db1)"
  shows "calls db1 = calls db @ admission_calls ev authorization user"
proof (cases authorization)
  case None
  then show ?thesis using assms by (simp add: verify_api_key_def)
next
  case (Some a)
  show ?thesis
  proof (cases "DATABASE_AVAILABLE ev")
    case False
    then show ?thesis
      using assms Some
      by (auto simp: verify_api_key_def admission_calls_def Let_def split: if_splits)
  next
    case True
    with assms Some have ok: "a \<noteq> []" "startswith a ''Bearer ''"
      by (auto simp: verify_api_key_def Let_def split: if_splits)
    obtain r db0 where r: "db_verify_api_key ev (api_key_of a) db = (r, db0)"
      by (cases "db_verify_api_key ev (api_key_of a) db") auto
    with assms Some True ok obtain u where u: "r = Some u"
      and lim: "check_limits ev u db0 = (Inr user, db1)"
      by (cases r) (auto simp: verify_api_key_def)
    from db_verify_Some_calls [OF r [unfolded u]] have sup: "supabase ev"
      and c0: "calls db0 = calls db @
           [SelectApiKeys (hash_api_key (api_key_of a)), SelectUsers (user_id u),
            SelectSubscriptions (user_id u), UpdateLastUsed (api_key_id u)]"
      by simp_all
    from check_limits_Inr_calls [OF lim sup] have "user = u"
      and "calls db1 = calls db0 @
           [RpcRateLimit (user_id u) (rate_limit u), RpcMonthlyUsage (user_id u)]"
      by simp_all
    then show ?thesis
      using c0 Some True by (simp add: admission_calls_def)
  qed
qed

lemma admission_counts:
  "length (filter is_key_lookup (admission_calls ev authorization user @ logs))
     = length (filter is_key_lookup (admission_calls ev authorization user))"
  "length (filter is_rate_check (admission_calls ev authorization user @ logs))
     = length (filter is_rate_check (admission_calls ev authorization user))"
  "length (filter is_quota_check (admission_calls ev authorization user @ logs))
     = length (filter is_quota_check (admission_calls ev authorization user))"
  if "set logs \<subseteq> {InsertUsageLog}"
proof -
  have "filter is_key_lookup logs = []" "filter is_rate_check logs = []"
    "filter is_quota_check logs = []"
    using that by (auto simp: filter_empty_conv)
  then show
    "length (filter is_key_lookup (admission_calls ev authorization user @ logs))
     = length (filter is_key_lookup (admission_calls ev authorization user))"
    "length (filter is_rate_check (admission_calls ev authorization user @ logs))
     = length (filter is_rate_check (admission_calls ev authorization user))"
    "length (filter is_quota_check (admission_calls ev authorization user @ logs))
     = length (filter is_quota_check (admission_calls ev authorization user))"
    by simp_all
qed

lemma admission_calls_once:
  "length (filter is_key_lookup (admission_calls ev authorization user)) \<le> 1"
  "length (filter is_rate_check (admission_calls ev authorization user)) \<le> 1"
  "length (filter is_quota_check (admission_calls ev authorization user)) \<le> 1"
  by (simp_all add: admission_calls_def split: option.splits)

text \<open>Claim C4, as the code has it. The authentication, the rate-limit check and the quota
  check of a batch request are those of the one run of \<^verbatim>\<open>verify_api_key\<close> that the
  endpoint depends on; the contained calls of the generation path send the store nothing
  but usage entries, so each check is made at most once for the request, whatever the
  number of seeds. When the batch succeeds, it holds one result per seed, in order: the
  answer of the generation path for that seed, the shared number of chunks, the format
  \<^verbatim>\<open>hex\<close> and no skip.\<close>

theorem batch_checks_once_per_request:
  assumes "verify_api_key ev authorization db = (Inr user, db1)"
    and "parse_batch_body body = Inr request"
  shows "(\<exists>logs. calls (snd (post_batch ev U authorization body db))
                   = calls db @ admission_calls ev authorization user @ logs
               \<and> set logs \<subseteq> {InsertUsageLog}
               \<and> length (filter is_key_lookup (admission_calls ev authorization user @ logs)) \<le> 1
               \<and> length (filter is_rate_check (admission_calls ev authorization user @ logs)) \<le> 1
               \<and> length (filter is_quota_check (admission_calls ev authorization user @ logs)) \<le> 1)
       \<and> (\<forall>results. fst (post_batch ev U authorization body db) = Inr results \<longrightarrow>
              length results = length (seeds request)
            \<and> (\<forall>i < length (seeds request).
                  fst (generate ev U \<lparr>seed = seeds request ! i, chunks = chunks_per_seed request,
                                       format = ''hex'', skip = 0\<rparr> (Dict user) DependsObj db)
                  = Inr (results ! i)))"
proof -
  have pb: "post_batch ev U authorization body db = batch_generate ev U request (Dict user) db1"
    using assms by (simp add: post_batch_def)
  have "\<exists>logs. calls (snd (batch_generate ev U request (Dict user) db1)) = calls db1 @ logs
      \<and> set logs \<subseteq> {InsertUsageLog}"
  proof (cases "U = None")
    case True
    then show ?thesis by (simp add: batch_generate_def)
  next
    case False
    then show ?thesis
      using batch_loop_calls [of ev U "chunks_per_seed request" "Dict user" "seeds request" "[]" db1]
      by (simp add: batch_generate_def)
  qed
  then obtain logs where logs: "calls (snd (post_batch ev U authorization body db))
      = calls db @ admission_calls ev authorization user @ logs" "set logs \<subseteq> {InsertUsageLog}"
    using pb verify_Inr_calls [OF assms(1)] by auto
  have first: "\<exists>logs. calls (snd (post_batch ev U authorization body db))
                   = calls db @ admission_calls ev authorization user @ logs
               \<and> set logs \<subseteq> {InsertUsageLog}
               \<and> length (filter is_key_lookup (admission_calls ev authorization user @ logs)) \<le> 1
               \<and> length (filter is_rate_check (admission_calls ev authorization user @ logs)) \<le> 1
               \<and> length (filter is_quota_check (admission_calls ev authorization user @ logs)) \<le> 1"
    using logs admission_counts [OF logs(2), of ev authorization user]
      admission_calls_once [of ev authorization user]
    by (intro exI [of _ logs]) simp
  have second: "length results = length (seeds request)
            \<and> (\<forall>i < length (seeds request).
                  fst (generate ev U \<lparr>seed = seeds request ! i, chunks = chunks_per_seed request,
                                       format = ''hex'', skip = 0\<rparr> (Dict user) DependsObj db)
                  = Inr (results ! i))"
    if "fst (post_batch ev U authorization body db) = Inr results" for results
  proof -
    have "fst (batch_generate ev U request (Dict user) db1) = Inr results"
      using that by (simp only: pb)
    then obtain db' where "batch_generate ev U request (Dict user) db1 = (Inr results, db')"
      by (cases "batch_generate ev U request (Dict user) db1") auto
    then have "batch_loop ev U (chunks_per_seed request) (Dict user) (seeds request) [] db1
        = (Inr results, db')"
      by (auto simp: batch_generate_def split: if_splits)
    from batch_loop_results [OF this, of db] show ?thesis by auto
  qed
  show ?thesis using first second by blast
qed


lemma hex_sample1: "hex [1, 2, 3, 4, 5, 6, 7, 8, 9, 10, 11, 12, 13, 14, 15, 16]
   = ''0102030405060708090a0b0c0d0e0f10''"
  by code_simp

lemma produce_second_chunk:
  "produce counter_qkd \<lparr>seed = 1, chunks = 1, format = f, skip = 0\<rparr>
     = Inr [[1, 2, 3, 4, 5, 6, 7, 8, 9, 10, 11, 12, 13, 14, 15, 16]]"
  by (simp add: produce_def counter_qkd_def)

lemma demo_generate_first:
  "generate demo_env (Some counter_qkd) \<lparr>seed = 0, chunks = 1, format = ''hex'', skip = 0\<rparr>
     req auth db
   = (Inr \<lparr>data = [''000102030405060708090a0b0c0d0e0f''],
           hash = hexdigest [0, 1, 2, 3, 4, 5, 6, 7, 8, 9, 10, 11, 12, 13, 14, 15],
           chunks_generated = 1, response_seed = 0,
           verification_url = ''https://goldenseed.io/verify/''
             @ take 16 (hexdigest [0, 1, 2, 3, 4, 5, 6, 7, 8, 9, 10, 11, 12, 13, 14, 15])\<rparr>, db)"
  by (simp add: generate_def try_generate_def produce_first_chunk format_output_def
      report_usage_def demo_env_no_database mk_GenerateResponse_def Let_def hex_sample)

lemma demo_generate_second:
  "generate demo_env (Some counter_qkd) \<lparr>seed = 1, chunks = 1, format = ''hex'', skip = 0\<rparr>
     req auth db
   = (Inr \<lparr>data = [''0102030405060708090a0b0c0d0e0f10''],
           hash = hexdigest [1, 2, 3, 4, 5, 6, 7, 8, 9, 10, 11, 12, 13, 14, 15, 16],
           chunks_generated = 1, response_seed = 1,
           verification_url = ''https://goldenseed.io/verify/''
             @ take 16 (hexdigest [1, 2, 3, 4, 5, 6, 7, 8, 9, 10, 11, 12, 13, 14, 15, 16])\<rparr>, db)"
  by (simp add: generate_def try_generate_def produce_second_chunk format_output_def
      report_usage_def demo_env_no_database mk_GenerateResponse_def Let_def hex_sample1)

lemma parse_sample_batch:
  "parse_batch_body \<lparr>body_seeds = Some [0, 1], body_chunks_per_seed = Some 1\<rparr>
     = Inr \<lparr>seeds = [0, 1], chunks_per_seed = 1\<rparr>"
  "parse_batch_body \<lparr>body_seeds = Some [], body_chunks_per_seed = Some 1\<rparr>
     = Inr \<lparr>seeds = [], chunks_per_seed = 1\<rparr>"
  by (simp_all add: parse_batch_body_def mk_BatchRequest_def)

theorem batch_checks_once_per_request_witness:
  "\<exists>results. fst (post_batch demo_env (Some counter_qkd) (Some ''Bearer gs_demo_key_12345'')
                    \<lparr>body_seeds = Some [0, 1], body_chunks_per_seed = Some 1\<rparr> empty_store)
                = Inr results
     \<and> length results = 2
     \<and> map data results = [[''000102030405060708090a0b0c0d0e0f''],
                             [''0102030405060708090a0b0c0d0e0f10'']]
     \<and> fst (generate demo_env (Some counter_qkd)
              \<lparr>seed = 1, chunks = 1, format = ''hex'', skip = 0\<rparr> (Dict demo_principal)
              DependsObj empty_store) = Inr (results ! 1)
     \<and> calls (snd (post_batch demo_env (Some counter_qkd) (Some ''Bearer gs_demo_key_12345'')
                    \<lparr>body_seeds = Some [0, 1], body_chunks_per_seed = Some 1\<rparr> empty_store))
         = []"
proof -
  let ?body = "\<lparr>body_seeds = Some [0, 1], body_chunks_per_seed = Some 1\<rparr>"
  let ?run = "post_batch demo_env (Some counter_qkd) (Some ''Bearer gs_demo_key_12345'')
                ?body empty_store"
  have mk: "mk_GenerateRequest 0 1 ''hex'' 0 = Inr \<lparr>seed = 0, chunks = 1, format = ''hex'', skip = 0\<rparr>"
    "mk_GenerateRequest 1 1 ''hex'' 0 = Inr \<lparr>seed = 1, chunks = 1, format = ''hex'', skip = 0\<rparr>"
    by (simp_all add: mk_GenerateRequest_def)
  have run: "\<exists>r0 r1. ?run = (Inr [r0, r1], empty_store)
      \<and> data r0 = [''000102030405060708090a0b0c0d0e0f'']
      \<and> data r1 = [''0102030405060708090a0b0c0d0e0f10'']"
    by (simp add: post_batch_def verify_demo parse_sample_batch batch_generate_def mk
        demo_generate_first demo_generate_second)
  then obtain r0 r1 where r: "?run = (Inr [r0, r1], empty_store)"
    "data r0 = [''000102030405060708090a0b0c0d0e0f'']"
    "data r1 = [''0102030405060708090a0b0c0d0e0f10'']"
    by blast
  note t = batch_checks_once_per_request [OF verify_demo [of empty_store] parse_sample_batch(1),
      where U = "Some counter_qkd"]
  from t r(1) have "length [r0, r1] = length (seeds \<lparr>seeds = [0, 1], chunks_per_seed = 1\<rparr>)"
    and "\<forall>i < length (seeds \<lparr>seeds = [0, 1], chunks_per_seed = 1\<rparr>).
            fst (generate demo_env (Some counter_qkd)
                   \<lparr>seed = seeds \<lparr>seeds = [0, 1], chunks_per_seed = 1\<rparr> ! i,
                    chunks = chunks_per_seed \<lparr>seeds = [0, 1], chunks_per_seed = 1\<rparr>,
                    format = ''hex'', skip = 0\<rparr> (Dict demo_principal) DependsObj empty_store)
            = Inr ([r0, r1] ! i)"
    by simp_all
  then have "fst (generate demo_env (Some counter_qkd)
              \<lparr>seed = 1, chunks = 1, format = ''hex'', skip = 0\<rparr> (Dict demo_principal)
              DependsObj empty_store) = Inr ([r0, r1] ! 1)"
    by (auto dest: spec [of _ 1])
  then show ?thesis
    using r by (simp add: empty_store_def)
qed


lemma live_batch_two_seeds:
  "post_batch db_env (Some counter_qkd) (Some ''Bearer gs_live_key'')
     \<lparr>body_seeds = Some [0, 1], body_chunks_per_seed = Some 1\<rparr> (live_store 0)
   = (Inl (HTTPException 500 (Generation_failed NotSubscriptable)), admitted_store 0)"
proof -
  have mk: "mk_GenerateRequest 0 1 ''hex'' 0 = Inr \<lparr>seed = 0, chunks = 1, format = ''hex'', skip = 0\<rparr>"
    by (simp add: mk_GenerateRequest_def)
  have "generate db_env (Some counter_qkd) \<lparr>seed = 0, chunks = 1, format = ''hex'', skip = 0\<rparr>
          (Dict live_principal) DependsObj (admitted_store 0)
        = (Inl (HTTPException 500 (Generation_failed NotSubscriptable)), admitted_store 0)"
    by (simp add: generate_def try_generate_def produce_first_chunk report_usage_def
        db_env_flags Let_def)
  then show ?thesis
    by (simp add: post_batch_def live_admission parse_sample_batch batch_generate_def mk)
qed

lemma live_batch_no_seeds:
  "post_batch db_env (Some counter_qkd) (Some ''Bearer gs_live_key'')
     \<lparr>body_seeds = Some [], body_chunks_per_seed = Some 1\<rparr> (live_store 0)
   = (Inr [], admitted_store 0)"
  by (simp add: post_batch_def live_admission parse_sample_batch batch_generate_def)

text \<open>Claim C4, as stated, fails: with a valid key and a connected store, a batch of two
  seeds makes each of the three checks once, not twice (and is answered 500, because the
  contained call has no user to report the usage of); a batch without seeds succeeds and
  makes each check once, not zero times.\<close>

theorem batch_checks_not_per_seed:
  "calls (live_store 0) = []
 \<and> length [0, 1 :: int] = 2
 \<and> length (filter is_key_lookup (calls (snd (post_batch db_env (Some counter_qkd)
       (Some ''Bearer gs_live_key'')
       \<lparr>body_seeds = Some [0, 1], body_chunks_per_seed = Some 1\<rparr> (live_store 0))))) = 1
 \<and> length (filter is_rate_check (calls (snd (post_batch db_env (Some counter_qkd)
       (Some ''Bearer gs_live_key'')
       \<lparr>body_seeds = Some [0, 1], body_chunks_per_seed = Some 1\<rparr> (live_store 0))))) = 1
 \<and> length (filter is_quota_check (calls (snd (post_batch db_env (Some counter_qkd)
       (Some ''Bearer gs_live_key'')
       \<lparr>body_seeds = Some [0, 1], body_chunks_per_seed = Some 1\<rparr> (live_store 0))))) = 1
 \<and> status (post_batch db_env (Some counter_qkd) (Some ''Bearer gs_live_key'')
       \<lparr>body_seeds = Some [0, 1], body_chunks_per_seed = Some 1\<rparr> (live_store 0)) = 500
 \<and> fst (post_batch db_env (Some counter_qkd) (Some ''Bearer gs_live_key'')
       \<lparr>body_seeds = Some [], body_chunks_per_seed = Some 1\<rparr> (live_store 0)) = Inr []
 \<and> length (filter is_rate_check (calls (snd (post_batch db_env (Some counter_qkd)
       (Some ''Bearer gs_live_key'')
       \<lparr>body_seeds = Some [], body_chunks_per_seed = Some 1\<rparr> (live_store 0))))) = 1
 \<and> length (filter is_quota_check (calls (snd (post_batch db_env (Some counter_qkd)
       (Some ''Bearer gs_live_key'')
       \<lparr>body_seeds = Some [], body_chunks_per_seed = Some 1\<rparr> (live_store 0))))) = 1"
proof -
  have "calls (live_store 0) = []"
    by (simp add: live_store_def)
  then show ?thesis
    by (simp add: live_batch_two_seeds live_batch_no_seeds admitted_fields status_rejected)
qed

subsection \<open>A supplied key that does not resolve\<close>

text \<open>Claim C2 fails where the header repeats the scheme prefix. For the header
  \<^verbatim>\<open>Bearer Bearer gs_demo_key_12345\<close> the supplied key, the header after its leading
  \<^verbatim>\<open>Bearer \<close>, is \<^verbatim>\<open>Bearer gs_demo_key_12345\<close>, which is not the demo key; the request is
  answered 200, not 403.\<close>

theorem unresolved_key_admitted:
  "startswith ''Bearer Bearer gs_demo_key_12345'' ''Bearer ''
 \<and> drop 7 ''Bearer Bearer gs_demo_key_12345'' = ''Bearer gs_demo_key_12345''
 \<and> ''Bearer gs_demo_key_12345'' \<noteq> ''gs_demo_key_12345''
 \<and> \<not> DATABASE_AVAILABLE demo_env
 \<and> status (post_generate demo_env (Some counter_qkd) (Some ''Bearer Bearer gs_demo_key_12345'')
       \<lparr>body_seed = Some 0, body_chunks = Some 1, body_format = Some ''hex'', body_skip = None\<rparr>
       empty_store) = 200"
proof -
  have v: "verify_api_key demo_env (Some ''Bearer Bearer gs_demo_key_12345'') empty_store
      = (Inr demo_principal, empty_store)"
    by (simp add: verify_api_key_def startswith_def doubled_scheme_key demo_env_no_database)
  have parse: "parse_generate_body
      \<lparr>body_seed = Some 0, body_chunks = Some 1, body_format = Some ''hex'', body_skip = None\<rparr>
      = Inr \<lparr>seed = 0, chunks = 1, format = ''hex'', skip = 0\<rparr>"
    by (simp add: parse_generate_body_def mk_GenerateRequest_def)
  have "status (post_generate demo_env (Some counter_qkd) (Some ''Bearer Bearer gs_demo_key_12345'')
       \<lparr>body_seed = Some 0, body_chunks = Some 1, body_format = Some ''hex'', body_skip = None\<rparr>
       empty_store) = 200"
    by (simp add: post_generate_def v parse demo_generate_first status_def)
  then show ?thesis
    by (simp add: startswith_def demo_env_no_database)
qed

subsection \<open>Failures of the store\<close>

lemma db_verify_raises: "raises (snd (db_verify_api_key ev key db)) = raises db"
  by (simp add: db_verify_api_key_def select_api_keys_def select_users_def
      select_subscriptions_def update_last_used_def execute_def Let_def
      split: list.splits prod.splits option.splits)

lemma db_verify_unanswered:
  assumes "\<not> supabase ev \<or> raises db (length (calls db))"
  shows "fst (db_verify_api_key ev key db) = None"
  using assms
  by (auto simp: db_verify_api_key_def select_api_keys_def execute_def Let_def)

lemma verify_unanswered:
  assumes "DATABASE_AVAILABLE ev" and "startswith a ''Bearer ''"
    and "\<not> supabase ev \<or> raises db (length (calls db))"
  shows "\<exists>db1. verify_api_key ev (Some a) db = (Inl invalid_key, db1)"
proof -
  have "a \<noteq> []" using assms(2) by (auto simp: startswith_def)
  moreover obtain db1 where "db_verify_api_key ev (api_key_of a) db = (None, db1)"
    using db_verify_unanswered [OF assms(3), of "api_key_of a"]
    by (cases "db_verify_api_key ev (api_key_of a) db") auto
  ultimately show ?thesis
    using assms(1,2) by (simp add: verify_api_key_def)
qed

lemma check_limits_unanswered:
  assumes "supabase ev" and "raises db (length (calls db))"
    and "raises db (Suc (length (calls db)))" and "0 < chunks_limit user"
  shows "fst (check_limits ev user db) = Inr user"
  using assms
  by (simp add: check_limits_def check_rate_limit_def get_monthly_usage_def execute_def Let_def)

text \<open>Claim C6, as the code has it. Without a client, or when the request to the store
  raises, the rate-limit check answers \<^verbatim>\<open>True\<close> and the monthly usage is 0; so a request
  whose key was resolved and whose quota is positive is admitted when the requests of
  these two checks raise. A failure of the store during key resolution is surfaced: without
  a client, or when the first lookup raises, both endpoints answer 403.\<close>

theorem rate_and_quota_checks_fail_open:
  "(\<not> supabase ev \<or> raises db (length (calls db)) \<longrightarrow>
      fst (check_rate_limit ev uid limit db) \<and> fst (get_monthly_usage ev uid db) = 0)
 \<and> (DATABASE_AVAILABLE ev \<and> startswith a ''Bearer ''
      \<and> db_verify_api_key ev (api_key_of a) db = (Some user, db1)
      \<and> raises db1 (length (calls db1)) \<and> raises db1 (Suc (length (calls db1)))
      \<and> 0 < chunks_limit user \<longrightarrow>
      fst (verify_api_key ev (Some a) db) = Inr user)
 \<and> (DATABASE_AVAILABLE ev \<and> startswith a ''Bearer ''
      \<and> (\<not> supabase ev \<or> raises db (length (calls db))) \<longrightarrow>
      status (post_generate ev U (Some a) gb db) = 403
    \<and> status (post_batch ev U (Some a) bb db) = 403)"
proof -
  have one: "\<not> supabase ev \<or> raises db (length (calls db)) \<longrightarrow>
      fst (check_rate_limit ev uid limit db) \<and> fst (get_monthly_usage ev uid db) = 0"
    by (auto simp: check_rate_limit_def get_monthly_usage_def execute_def Let_def)
  have two: "fst (verify_api_key ev (Some a) db) = Inr user"
    if da: "DATABASE_AVAILABLE ev" and sw: "startswith a ''Bearer ''"
      and res: "db_verify_api_key ev (api_key_of a) db = (Some user, db1)"
      and r1: "raises db1 (length (calls db1))" and r2: "raises db1 (Suc (length (calls db1)))"
      and lim: "0 < chunks_limit user"
  proof -
    have "a \<noteq> []" using sw by (auto simp: startswith_def)
    moreover have "supabase ev" using db_verify_Some_calls [OF res] by simp
    ultimately show ?thesis
      using da sw res check_limits_unanswered [OF _ r1 r2 lim]
      by (simp add: verify_api_key_def)
  qed
  have three: "status (post_generate ev U (Some a) gb db) = 403
    \<and> status (post_batch ev U (Some a) bb db) = 403"
    if da: "DATABASE_AVAILABLE ev" and sw: "startswith a ''Bearer ''"
      and down: "\<not> supabase ev \<or> raises db (length (calls db))"
  proof -
    from verify_unanswered [OF da sw down]
    obtain db1 where v: "verify_api_key ev (Some a) db = (Inl invalid_key, db1)" by blast
    show ?thesis
      by (simp add: post_generate_rejected [OF v] post_batch_rejected [OF v] status_rejected
          invalid_key_def)
  qed
  show ?thesis using one two three by blast
qed


lemma checks_down_fields:
  "api_keys checks_down_store = api_keys (live_store 20000)"
  "users checks_down_store = users (live_store 20000)"
  "subscriptions checks_down_store = subscriptions (live_store 20000)"
  "calls checks_down_store = []"
  "raises checks_down_store = (\<lambda>k. 4 \<le> k)"
  "monthly_usage_rpc checks_down_store = (\<lambda>u. Some 20000)"
  by (simp_all add: checks_down_store_def live_store_def)

lemma down_fields:
  "api_keys down_store = api_keys (live_store 0)"
  "users down_store = users (live_store 0)"
  "subscriptions down_store = subscriptions (live_store 0)"
  "calls down_store = []"
  "raises down_store = (\<lambda>k. True)"
  by (simp_all add: down_store_def live_store_def)

lemma checks_down_resolution:
  "fst (db_verify_api_key db_env ''gs_live_key'' checks_down_store) = Some live_principal"
proof -
  have "fst (db_verify_api_key db_env ''gs_live_key'' checks_down_store) =
     (if raises checks_down_store (length (calls checks_down_store) + 3) then None
      else Some \<lparr>user_id = key_user_id (hd (api_keys (live_store 20000))),
                  api_key_id = key_id (hd (api_keys (live_store 20000))),
                  email = usr_email (hd (users (live_store 20000))),
                  tier = sub_tier (hd (subscriptions (live_store 20000))),
                  chunks_limit = sub_chunks_limit (hd (subscriptions (live_store 20000))),
                  rate_limit = sub_rate_limit (hd (subscriptions (live_store 20000)))\<rparr>)"
    by (rule db_verify_steps [where other_keys = "[]" and other_users = "[]"
          and other_subscriptions = "[]"])
      (simp_all add: db_env_flags checks_down_fields live_tables)
  then show ?thesis
    by (simp add: checks_down_fields live_tables live_principal_def)
qed

theorem rate_and_quota_checks_fail_open_witness:
  "raises down_store (length (calls down_store))
 \<and> fst (check_rate_limit db_env ''u1'' 100 down_store)
 \<and> fst (get_monthly_usage db_env ''u1'' down_store) = 0
 \<and> monthly_usage_rpc checks_down_store ''u1'' = Some 20000
 \<and> chunks_limit live_principal = 10000
 \<and> fst (verify_api_key db_env (Some ''Bearer gs_live_key'') checks_down_store)
     = Inr live_principal
 \<and> status (post_generate db_env (Some counter_qkd) (Some ''Bearer gs_live_key'')
       \<lparr>body_seed = None, body_chunks = None, body_format = None, body_skip = None\<rparr>
       down_store) = 403
 \<and> status (post_batch unconfigured_env (Some counter_qkd) (Some ''Bearer gs_live_key'')
       \<lparr>body_seeds = Some [0], body_chunks_per_seed = None\<rparr> (live_store 0)) = 403"
proof -
  let ?gb = "\<lparr>body_seed = None, body_chunks = None, body_format = None, body_skip = None\<rparr>"
  let ?bb = "\<lparr>body_seeds = Some [0], body_chunks_per_seed = None\<rparr>"
  let ?db1 = "snd (db_verify_api_key db_env (api_key_of ''Bearer gs_live_key'') checks_down_store)"
  have sw: "startswith ''Bearer gs_live_key'' ''Bearer ''"
    by (simp add: startswith_def)
  have down: "raises down_store (length (calls down_store))"
    by (simp add: down_fields)
  have res: "db_verify_api_key db_env (api_key_of ''Bearer gs_live_key'') checks_down_store
      = (Some live_principal, ?db1)"
    using checks_down_resolution by (simp add: live_key_of_header prod_eq_iff)
  have "calls ?db1 = calls checks_down_store @
           [SelectApiKeys (hash_api_key (api_key_of ''Bearer gs_live_key'')),
            SelectUsers (user_id live_principal), SelectSubscriptions (user_id live_principal),
            UpdateLastUsed (api_key_id live_principal)]"
    using db_verify_Some_calls [OF res] by simp
  then have len: "length (calls ?db1) = 4"
    by (simp add: checks_down_fields)
  have "raises ?db1 = (\<lambda>k. 4 \<le> k)"
    by (simp add: db_verify_raises checks_down_fields)
  then have late: "raises ?db1 (length (calls ?db1))" "raises ?db1 (Suc (length (calls ?db1)))"
    by (simp_all add: len)
  have lim: "0 < chunks_limit live_principal"
    by (simp add: live_principal_fields)
  have off: "\<not> supabase unconfigured_env" and on: "DATABASE_AVAILABLE unconfigured_env"
    by (simp_all add: unconfigured_env_def)
  note a = rate_and_quota_checks_fail_open [where ev = db_env and db = down_store
      and uid = "''u1''" and limit = 100 and a = "''Bearer gs_live_key''"
      and U = "Some counter_qkd" and gb = ?gb and bb = ?bb]
  note b = rate_and_quota_checks_fail_open [where ev = db_env and db = checks_down_store
      and a = "''Bearer gs_live_key''" and user = live_principal and ?db1.0 = ?db1]
  note c = rate_and_quota_checks_fail_open [where ev = unconfigured_env and db = "live_store 0"
      and a = "''Bearer gs_live_key''" and U = "Some counter_qkd" and gb = ?gb and bb = ?bb]
  from a down have "fst (check_rate_limit db_env ''u1'' 100 down_store)"
    "fst (get_monthly_usage db_env ''u1'' down_store) = 0"
    by blast+
  moreover from a down sw db_env_flags(1)
  have "status (post_generate db_env (Some counter_qkd) (Some ''Bearer gs_live_key'') ?gb
          down_store) = 403"
    by blast
  moreover from b db_env_flags(1) sw res late lim
  have "fst (verify_api_key db_env (Some ''Bearer gs_live_key'') checks_down_store)
      = Inr live_principal"
    by blast
  moreover from c on sw off
  have "status (post_batch unconfigured_env (Some counter_qkd) (Some ''Bearer gs_live_key'') ?bb
          (live_store 0)) = 403"
    by blast
  ultimately show ?thesis
    using down by (simp add: checks_down_fields live_principal_fields)
qed

lemma live_generate_hex:
  "post_generate db_env (Some counter_qkd) (Some ''Bearer gs_live_key'')
     \<lparr>body_seed = None, body_chunks = Some 1, body_format = None, body_skip = None\<rparr>
     (live_store 0)
   = (Inr \<lparr>data = [''000102030405060708090a0b0c0d0e0f''],
           hash = hexdigest [0, 1, 2, 3, 4, 5, 6, 7, 8, 9, 10, 11, 12, 13, 14, 15],
           chunks_generated = 1, response_seed = 0,
           verification_url = ''https://goldenseed.io/verify/''
             @ take 16 (hexdigest [0, 1, 2, 3, 4, 5, 6, 7, 8, 9, 10, 11, 12, 13, 14, 15])\<rparr>,
      (admitted_store 0)\<lparr>calls := calls (admitted_store 0) @ [InsertUsageLog],
         usage_logs := [\<lparr>log_user_id = ''u1'', log_api_key_id = ''k1'',
                         log_endpoint = ''/api/v1/generate'', log_chunks_generated = 1,
                         log_response_time_ms = 3, log_status_code = 200\<rparr>]\<rparr>)"
proof -
  have parse: "parse_generate_body
      \<lparr>body_seed = None, body_chunks = Some 1, body_format = None, body_skip = None\<rparr>
      = Inr \<lparr>seed = 0, chunks = 1, format = ''hex'', skip = 0\<rparr>"
    by (simp add: parse_generate_body_def mk_GenerateRequest_def)
  have report: "report_usage db_env \<lparr>seed = 0, chunks = 1, format = ''hex'', skip = 0\<rparr>
       (Dict live_principal) (admitted_store 0)
     = (None, (admitted_store 0)\<lparr>calls := calls (admitted_store 0) @ [InsertUsageLog],
         usage_logs := [\<lparr>log_user_id = ''u1'', log_api_key_id = ''k1'',
                         log_endpoint = ''/api/v1/generate'', log_chunks_generated = 1,
                         log_response_time_ms = 3, log_status_code = 200\<rparr>]\<rparr>)"
    by (simp add: report_usage_def db_env_flags live_principal_fields log_usage_admitted
        db_env_elapsed)
  show ?thesis
    by (simp add: post_generate_def live_admission parse generate_def try_generate_def
        produce_first_chunk format_output_def report mk_GenerateResponse_def Let_def hex_sample)
qed

text \<open>Claim C6, as stated, fails: a failure of the store during admission control is
  surfaced when it meets key resolution. The key \<^verbatim>\<open>gs_live_key\<close> has its active row, its
  user and its subscription; with an answering store the request is answered 200, with a
  store whose requests raise it is answered 403, and so it is without a client.\<close>

theorem store_failure_rejects_valid_key:
  "resolvable down_store ''gs_live_key''
 \<and> raises down_store 0
 \<and> status (post_generate db_env (Some counter_qkd) (Some ''Bearer gs_live_key'')
       \<lparr>body_seed = None, body_chunks = Some 1, body_format = None, body_skip = None\<rparr>
       (live_store 0)) = 200
 \<and> status (post_generate db_env (Some counter_qkd) (Some ''Bearer gs_live_key'')
       \<lparr>body_seed = None, body_chunks = Some 1, body_format = None, body_skip = None\<rparr>
       down_store) = 403
 \<and> \<not> supabase unconfigured_env
 \<and> status (post_generate unconfigured_env (Some counter_qkd) (Some ''Bearer gs_live_key'')
       \<lparr>body_seed = None, body_chunks = Some 1, body_format = None, body_skip = None\<rparr>
       (live_store 0)) = 403"
proof -
  let ?gb = "\<lparr>body_seed = None, body_chunks = Some 1, body_format = None, body_skip = None\<rparr>"
  have sw: "startswith ''Bearer gs_live_key'' ''Bearer ''"
    by (simp add: startswith_def)
  have off: "\<not> supabase unconfigured_env" and on: "DATABASE_AVAILABLE unconfigured_env"
    by (simp_all add: unconfigured_env_def)
  have "raises down_store (length (calls down_store))"
    by (simp add: down_fields)
  then obtain db1 where v1: "verify_api_key db_env (Some ''Bearer gs_live_key'') down_store
      = (Inl invalid_key, db1)"
    using verify_unanswered [OF db_env_flags(1) sw] by blast
  obtain db2 where v2: "verify_api_key unconfigured_env (Some ''Bearer gs_live_key'')
      (live_store 0) = (Inl invalid_key, db2)"
    using verify_unanswered [OF on sw] off by blast
  have "status (post_generate db_env (Some counter_qkd) (Some ''Bearer gs_live_key'') ?gb
          down_store) = 403"
    by (simp add: post_generate_rejected [OF v1] status_rejected invalid_key_def)
  moreover have "status (post_generate unconfigured_env (Some counter_qkd)
          (Some ''Bearer gs_live_key'') ?gb (live_store 0)) = 403"
    by (simp add: post_generate_rejected [OF v2] status_rejected invalid_key_def)
  moreover have "status (post_generate db_env (Some counter_qkd) (Some ''Bearer gs_live_key'')
          ?gb (live_store 0)) = 200"
    by (simp add: live_generate_hex status_def)
  moreover have "resolvable down_store ''gs_live_key''"
    by (simp add: resolvable_def down_fields live_tables)
  ultimately show ?thesis
    using off by (simp add: down_fields)
qed

subsection \<open>Rounding to the nearest double\<close>

lemma log2_ge1_bounds:
  "1 \<le> x \<Longrightarrow> 0 \<le> log2_ge1 x \<and> power_int 2 (log2_ge1 x) \<le> x
     \<and> x < power_int 2 (log2_ge1 x + 1)"
proof (induction x rule: log2_ge1.induct)
  case (1 x)
  show ?case
  proof (cases "x < 2")
    case True
    then show ?thesis using 1(2) by (subst (1 2 3) log2_ge1.simps) simp
  next
    case False
    then have ih: "0 \<le> log2_ge1 (x / 2)" "power_int 2 (log2_ge1 (x / 2)) \<le> x / 2"
      "x / 2 < power_int 2 (log2_ge1 (x / 2) + 1)"
      using 1 by simp_all
    have "power_int 2 (1 + log2_ge1 (x / 2)) = 2 * power_int (2::rat) (log2_ge1 (x / 2))"
      "power_int 2 (1 + log2_ge1 (x / 2) + 1) = 2 * power_int (2::rat) (log2_ge1 (x / 2) + 1)"
      by (simp_all add: power_int_add)
    then show ?thesis
      using False ih by (subst (1 2 3) log2_ge1.simps) simp
  qed
qed

lemma ilog2_le:
  assumes "0 < x"
  shows "power_int 2 (ilog2 x) \<le> x"
proof (cases "1 \<le> x")
  case True
  then show ?thesis using log2_ge1_bounds [of x] by (simp add: ilog2_def)
next
  case False
  define k where "k = log2_ge1 (1 / x)"
  have "1 \<le> 1 / x" using assms False by simp
  from log2_ge1_bounds [OF this] have k: "1 / x < power_int 2 (k + 1)"
    by (simp add: k_def)
  show ?thesis
  proof (cases "power_int 2 k = 1 / x")
    case True
    then have "power_int 2 (- k) = x"
      by (simp add: power_int_minus)
    then show ?thesis using False True by (simp add: ilog2_def k_def Let_def)
  next
    case neq: False
    have pos: "(0::rat) < power_int 2 (k + 1)" by simp
    have "1 / power_int 2 (k + 1) \<le> x"
      using k assms pos by (simp add: field_simps)
    moreover have "power_int (2::rat) (- k - 1) = 1 / power_int 2 (k + 1)"
    proof -
      have "- k - 1 = - (k + 1)" by simp
      then show ?thesis
        by (simp only: power_int_minus) (simp add: field_simps)
    qed
    ultimately show ?thesis
      using False neq by (simp add: ilog2_def k_def [symmetric] Let_def)
  qed
qed

lemma round_half_even_error: "\<bar>of_int (round_half_even y) - y\<bar> \<le> 1 / 2"
proof -
  have "of_int \<lfloor>y\<rfloor> \<le> y" "y < of_int \<lfloor>y\<rfloor> + 1"
    by linarith+
  then show ?thesis
    by (auto simp: round_half_even_def Let_def abs_le_iff)
qed

text \<open>The relative error of the rounding is at most \<open>2 ^ -53\<close>, apart from the subnormal
  range.\<close>

lemma to_double_error:
  "\<bar>to_double x - x\<bar> \<le> \<bar>x\<bar> * power_int 2 (- 53) + power_int 2 (- 1075)"
proof (cases "x = 0")
  case True
  then show ?thesis by (simp add: to_double_def)
next
  case False
  define e where "e = max (ilog2 \<bar>x\<bar>) (- 1022)"
  define q :: rat where "q = power_int 2 (e - 52)"
  have q: "0 < q" by (simp add: q_def)
  have td: "to_double x = of_int (round_half_even (x / q)) * q"
    using False by (simp add: to_double_def e_def q_def Let_def)
  have "to_double x - x = (of_int (round_half_even (x / q)) - x / q) * q"
    using q by (simp add: td field_simps)
  then have "\<bar>to_double x - x\<bar> = \<bar>of_int (round_half_even (x / q)) - x / q\<bar> * q"
    using q by (simp add: abs_mult)
  also have "\<dots> \<le> 1 / 2 * q"
    using round_half_even_error [of "x / q"] q by (intro mult_right_mono) simp_all
  finally have err: "\<bar>to_double x - x\<bar> \<le> q / 2" by simp
  have half: "q / 2 = power_int 2 (e - 53)"
  proof -
    have "power_int (2::rat) (e - 52) = power_int 2 (e - 53) * power_int 2 1"
      by (subst power_int_add [symmetric]) simp_all
    then show ?thesis by (simp add: q_def)
  qed
  have "power_int 2 (e - 53) \<le> \<bar>x\<bar> * power_int 2 (- 53) + power_int (2::rat) (- 1075)"
  proof (cases "- 1022 \<le> ilog2 \<bar>x\<bar>")
    case True
    then have "e = ilog2 \<bar>x\<bar>" by (simp add: e_def)
    moreover have "power_int (2::rat) (e - 53) = power_int 2 e * power_int 2 (- 53)"
      by (subst power_int_add [symmetric]) simp_all
    moreover have "power_int 2 (ilog2 \<bar>x\<bar>) \<le> \<bar>x\<bar>"
      using False by (intro ilog2_le) simp
    moreover have "(0::rat) \<le> power_int 2 (- 53)" "(0::rat) \<le> power_int 2 (- 1075)"
      by simp_all
    ultimately show ?thesis
      by (metis add_increasing2 mult_right_mono)
  next
    case False
    then have "e = - 1022" by (simp add: e_def)
    moreover have "0 \<le> \<bar>x\<bar> * power_int 2 (- 53)" by simp
    ultimately show ?thesis by simp
  qed
  then show ?thesis using err half by linarith
qed

lemma small_powers:
  "power_int (2::rat) (- 53) \<le> 1 / 1000000000000000"
  "power_int (2::rat) (- 1075) \<le> 1 / 1000000000000000"
  by (simp_all add: power_int_def power_divide field_simps)

text \<open>The double of the literal \<^verbatim>\<open>0.001\<close>, and the flag at the two ratios whose distance
  from one half is exactly one thousandth: \<^verbatim>\<open>abs(0.499 - 0.5)\<close> and \<^verbatim>\<open>abs(0.501 - 0.5)\<close>
  are not below \<^verbatim>\<open>0.001\<close>.\<close>

lemma threshold_double: "to_double (1 / 1000) = 1152921504606847 / 1152921504606846976"
  by code_simp

lemma tenth_double: "to_double (1 / 10) = 3602879701896397 / 36028797018963968"
  by code_simp

lemma boundary_doubles:
  "\<not> \<bar>to_double (to_double (499 / 1000) - 1 / 2)\<bar> < to_double (1 / 1000)"
  "\<not> \<bar>to_double (to_double (501 / 1000) - 1 / 2)\<bar> < to_double (1 / 1000)"
  by code_simp+

lemma ratio_error:
  fixes x :: rat
  assumes x01: "0 \<le> x" "x \<le> 1"
  shows "\<bar>to_double (to_double x - 1 / 2) - (x - 1 / 2)\<bar> \<le> 1 / 250000000000000"
proof -
  define r where "r = to_double x"
  define d where "d = to_double (r - 1 / 2)"
  have "\<bar>r - x\<bar> \<le> \<bar>x\<bar> * power_int 2 (- 53) + power_int 2 (- 1075)"
    unfolding r_def by (rule to_double_error)
  also have "\<dots> \<le> 1 * (1 / 1000000000000000) + 1 / 1000000000000000"
    using x01 small_powers by (intro add_mono mult_mono) simp_all
  finally have rx: "\<bar>r - x\<bar> \<le> 1 / 500000000000000" by simp
  have r1: "\<bar>r - 1 / 2\<bar> \<le> 1"
    using rx x01 unfolding abs_le_iff by linarith
  have "\<bar>d - (r - 1 / 2)\<bar> \<le> \<bar>r - 1 / 2\<bar> * power_int 2 (- 53) + power_int 2 (- 1075)"
    unfolding d_def by (rule to_double_error)
  also have "\<dots> \<le> 1 * (1 / 1000000000000000) + 1 / 1000000000000000"
    using r1 small_powers by (intro add_mono mult_mono) simp_all
  finally have dr: "\<bar>d - (r - 1 / 2)\<bar> \<le> 1 / 500000000000000" by simp
  have "\<bar>d - (x - 1 / 2)\<bar> \<le> 1 / 250000000000000"
    using rx dr unfolding abs_le_iff by linarith
  then show ?thesis by (simp add: d_def r_def)
qed

lemma distance_from_half:
  fixes h n :: int
  assumes "1 \<le> n"
  shows "\<bar>(of_int h / of_int n :: rat) - 1 / 2\<bar> = of_int \<bar>2 * h - n\<bar> / (2 * of_int n)"
proof -
  have npos: "(0::rat) < of_int n" using assms by simp
  have "(of_int h / of_int n :: rat) - 1 / 2 = of_int (2 * h - n) / (2 * of_int n)"
    using npos by (simp add: field_simps)
  then show ?thesis using npos by (simp add: abs_divide)
qed

lemma inside_margin:
  fixes t n :: int
  assumes "1 \<le> n" "n \<le> 1000000" "1000 * t < 2 * n"
  shows "(of_int t / (2 * of_int n) :: rat) \<le> 1 / 1000 - 1 / 2000000000"
proof -
  have npos: "(0::rat) < of_int n" using assms by simp
  have "t * 1000000000 + n \<le> 2 * n * 1000000" using assms by linarith
  then have "(of_int (t * 1000000000 + n) :: rat) \<le> of_int (2 * n * 1000000)"
    by (simp only: of_int_le_iff)
  then have "(of_int t :: rat) * 1000000000 + of_int n \<le> 2000000 * of_int n"
    by simp
  then have "(of_int t :: rat) * 1000000000 \<le> 1999999 * of_int n"
    by linarith
  then have "(of_int t :: rat) \<le> (1999999 / 1000000000) * of_int n"
    by linarith
  then have "(of_int t :: rat) / (2 * of_int n) \<le> (1999999 / 1000000000) / 2"
    using npos by (simp add: pos_divide_le_eq)
  then show ?thesis by simp
qed

lemma outside_margin:
  fixes t n :: int
  assumes "1 \<le> n" "n \<le> 1000000" "2 * n < 1000 * t"
  shows "(1 / 1000 + 1 / 2000000000 :: rat) \<le> of_int t / (2 * of_int n)"
proof -
  have npos: "(0::rat) < of_int n" using assms by simp
  have "2 * n * 1000000 + n \<le> t * 1000000000" using assms by linarith
  then have "(of_int (2 * n * 1000000 + n) :: rat) \<le> of_int (t * 1000000000)"
    by (simp only: of_int_le_iff)
  then have "2000000 * of_int n + of_int n \<le> (of_int t :: rat) * 1000000000"
    by simp
  then have "(2000001 / 1000000000) * of_int n \<le> (of_int t :: rat)"
    by linarith
  then have "(2000001 / 1000000000) / 2 \<le> (of_int t :: rat) / (2 * of_int n)"
    using npos by (simp add: pos_le_divide_eq)
  then show ?thesis by simp
qed

lemma on_boundary:
  fixes h n :: int
  assumes "1 \<le> n" "1000 * \<bar>2 * h - n\<bar> = 2 * n"
  shows "(of_int h / of_int n :: rat) = 499 / 1000 \<or> (of_int h / of_int n :: rat) = 501 / 1000"
proof -
  have npos: "(0::rat) < of_int n" using assms by simp
  from assms(2) have "1000 * h = 499 * n \<or> 1000 * h = 501 * n"
    by (auto simp: abs_if split: if_splits)
  then have "(of_int (1000 * h) :: rat) = of_int (499 * n)
      \<or> (of_int (1000 * h) :: rat) = of_int (501 * n)"
    by (simp only: of_int_eq_iff)
  then have "1000 * (of_int h :: rat) = 499 * of_int n
      \<or> 1000 * (of_int h :: rat) = 501 * of_int n"
    by simp
  then show ?thesis
    using npos by (auto simp: field_simps)
qed

text \<open>For at most a million flips the comparison of the doubles decides the comparison of
  the exact numbers: the rounding errors are far smaller than the distance of any other
  ratio from the two boundaries.\<close>

lemma perfect_iff:
  fixes h n :: int
  assumes n: "1 \<le> n" "n \<le> 1000000" and h: "0 \<le> h" "h \<le> n"
  shows "\<bar>fsub (truediv h n) (1 / 2)\<bar> < to_double (1 / 1000)
     \<longleftrightarrow> 1000 * \<bar>2 * h - n\<bar> < 2 * n"
proof -
  define x :: rat where "x = of_int h / of_int n"
  define d where "d = to_double (to_double x - 1 / 2)"
  define t where "t = \<bar>2 * h - n\<bar>"
  have x01: "0 \<le> x" "x \<le> 1"
    using n h by (simp_all add: x_def)
  have dx: "\<bar>d - (x - 1 / 2)\<bar> \<le> 1 / 250000000000000"
    unfolding d_def by (rule ratio_error [OF x01])
  have xt: "\<bar>x - 1 / 2\<bar> = of_int t / (2 * of_int n)"
    unfolding x_def t_def by (rule distance_from_half [OF n(1)])
  consider "1000 * t < 2 * n" | "2 * n < 1000 * t" | "1000 * t = 2 * n" by linarith
  then have "\<bar>d\<bar> < to_double (1 / 1000) \<longleftrightarrow> 1000 * t < 2 * n"
  proof cases
    case 1
    have "\<bar>x - 1 / 2\<bar> \<le> 1 / 1000 - 1 / 2000000000"
      unfolding xt by (rule inside_margin [OF n 1])
    with dx have "\<bar>d\<bar> < 1152921504606847 / 1152921504606846976"
      by linarith
    then show ?thesis using 1 by (simp only: threshold_double)
  next
    case 2
    have "1 / 1000 + 1 / 2000000000 \<le> \<bar>x - 1 / 2\<bar>"
      unfolding xt by (rule outside_margin [OF n 2])
    with dx have "1152921504606847 / 1152921504606846976 \<le> \<bar>d\<bar>"
      by linarith
    then have "\<not> \<bar>d\<bar> < 1152921504606847 / 1152921504606846976" by linarith
    moreover have "\<not> 1000 * t < 2 * n" using 2 by linarith
    ultimately show ?thesis by (simp only: threshold_double)
  next
    case 3
    then have "x = 499 / 1000 \<or> x = 501 / 1000"
      unfolding x_def t_def by (rule on_boundary [OF n(1)])
    then have "\<not> \<bar>d\<bar> < to_double (1 / 1000)"
      using boundary_doubles unfolding d_def by blast
    moreover have "\<not> 1000 * t < 2 * n" using 3 by linarith
    ultimately show ?thesis by blast
  qed
  then show ?thesis by (simp only: d_def x_def t_def fsub_def truediv_def)
qed

lemma exact_comparison:
  fixes h n :: int
  assumes "1 \<le> n"
  shows "\<bar>(of_int h / of_int n :: rat) - 1 / 2\<bar> < 1 / 1000 \<longleftrightarrow> 1000 * \<bar>2 * h - n\<bar> < 2 * n"
proof -
  have npos: "(0::rat) < of_int n" using assms by simp
  have "(of_int \<bar>2 * h - n\<bar> / (2 * of_int n) :: rat) < 1 / 1000
      \<longleftrightarrow> (1000 * of_int \<bar>2 * h - n\<bar> :: rat) < 2 * of_int n"
    using npos by (simp add: field_simps)
  also have "\<dots> \<longleftrightarrow> (of_int (1000 * \<bar>2 * h - n\<bar>) :: rat) < of_int (2 * n)"
    by simp
  also have "\<dots> \<longleftrightarrow> 1000 * \<bar>2 * h - n\<bar> < 2 * n"
    by (simp only: of_int_less_iff)
  finally show ?thesis
    by (simp only: distance_from_half [OF assms])
qed

subsection \<open>The coin-flip statistics\<close>

lemma count_heads_bounds:
  "count_heads q n g h = Inr h' \<Longrightarrow> h \<le> h' \<and> h' \<le> h + int n"
proof (induction n arbitrary: g h)
  case 0
  then show ?case by simp
next
  case (Suc n)
  from Suc.prems obtain c g1 where nx: "next_chunk q g = Inr (c, g1)"
    by (auto split: sum.splits)
  with Suc.prems obtain b bs where c: "c = b # bs"
    by (cases c) auto
  from Suc.prems nx c
  have "count_heads q n g1 (if b AND 1 \<noteq> 0 then h + 1 else h) = Inr h'"
    by simp
  from Suc.IH [OF this] show ?case
    by (auto split: if_splits)
qed

lemma coinflip_stats_fields:
  assumes "coinflip_stats U seed_param flips_param = Inr r"
  shows "total r = (case flips_param of None \<Rightarrow> 100000 | Some f \<Rightarrow> f)"
    and "1 \<le> total r" and "total r \<le> 1000000"
    and "0 \<le> heads r" and "heads r \<le> total r" and "tails r = total r - heads r"
    and "perfect_balance r
           \<longleftrightarrow> \<bar>fsub (truediv (heads r) (total r)) (1 / 2)\<bar> < to_double (1 / 1000)"
proof -
  define flips where "flips = (case flips_param of None \<Rightarrow> 100000 | Some f \<Rightarrow> f)"
  define seed where "seed = (case seed_param of None \<Rightarrow> 0 | Some s \<Rightarrow> (s::int))"
  from assms have ok: "\<not> (seed < 0 \<or> flips < 1 \<or> 1000000 < flips)"
    by (auto simp: coinflip_stats_def Let_def seed_def flips_def split: if_splits)
  with assms obtain q where q: "U = Some q"
    by (cases U) (auto simp: coinflip_stats_def Let_def seed_def flips_def)
  with assms ok obtain g where g: "advance q (nat seed) (fresh q) = Inr g"
    by (auto simp: coinflip_stats_def Let_def seed_def flips_def split: sum.splits)
  with assms ok q obtain h where h: "count_heads q (nat flips) g 0 = Inr h"
    by (auto simp: coinflip_stats_def Let_def seed_def flips_def split: sum.splits)
  from assms ok q g h have r:
    "heads r = h" "total r = flips" "tails r = flips - h"
    "perfect_balance r \<longleftrightarrow> \<bar>fsub (truediv h flips) (1 / 2)\<bar> < to_double (1 / 1000)"
    by (auto simp: coinflip_stats_def Let_def seed_def flips_def)
  from count_heads_bounds [OF h] ok have "0 \<le> h" "h \<le> flips"
    by simp_all
  with r ok show "total r = (case flips_param of None \<Rightarrow> 100000 | Some f \<Rightarrow> f)"
    and "1 \<le> total r" and "total r \<le> 1000000"
    and "0 \<le> heads r" and "heads r \<le> total r" and "tails r = total r - heads r"
    and "perfect_balance r
           \<longleftrightarrow> \<bar>fsub (truediv (heads r) (total r)) (1 / 2)\<bar> < to_double (1 / 1000)"
    by (simp_all add: flips_def)
qed

lemma perfect_balance_integer:
  assumes "coinflip_stats U seed_param flips_param = Inr r"
  shows "perfect_balance r \<longleftrightarrow> 1000 * \<bar>2 * heads r - total r\<bar> < 2 * total r"
  using coinflip_stats_fields(2-5,7) [OF assms] by (simp only: perfect_iff)

text \<open>The endpoint answers whenever the generator yields non-empty chunks.\<close>

lemma advance_returns:
  "(\<And>g. \<exists>c g'. next_chunk q g = Inr (c, g') \<and> c \<noteq> []) \<Longrightarrow> \<exists>g'. advance q n g = Inr g'"
proof (induction n arbitrary: g)
  case 0
  then show ?case by simp
next
  case (Suc n)
  from Suc.prems obtain c g1 where "next_chunk q g = Inr (c, g1)" by blast
  then show ?case using Suc.IH [OF Suc.prems, of g1] by simp
qed

lemma count_heads_returns:
  "(\<And>g. \<exists>c g'. next_chunk q g = Inr (c, g') \<and> c \<noteq> []) \<Longrightarrow> \<exists>h'. count_heads q n g h = Inr h'"
proof (induction n arbitrary: g h)
  case 0
  then show ?case by simp
next
  case (Suc n)
  from Suc.prems obtain c g1 where nx: "next_chunk q g = Inr (c, g1)" "c \<noteq> []" by blast
  then obtain b bs where c: "c = b # bs" by (cases c) auto
  show ?case
    using Suc.IH [OF Suc.prems, of g1 "if b AND 1 \<noteq> 0 then h + 1 else h"] nx c by simp
qed

lemma coinflip_stats_returns:
  assumes gen: "\<And>g. \<exists>c g'. next_chunk q g = Inr (c, g') \<and> c \<noteq> []"
    and "0 \<le> s" "1 \<le> f" "f \<le> 1000000"
  shows "\<exists>r. coinflip_stats (Some q) (Some s) (Some f) = Inr r"
proof -
  from advance_returns [OF gen] obtain g where
    g: "advance q (nat s) (fresh q) = Inr g" by blast
  from count_heads_returns [OF gen] obtain h where
    h: "count_heads q (nat f) g 0 = Inr h" by blast
  show ?thesis
    using assms(2-4) g h by (simp add: coinflip_stats_def Let_def)
qed

text \<open>Claim C8, as the code has it. For every answer of the endpoint, the flag
  \<^verbatim>\<open>perfect_balance\<close>, computed on doubles, is true exactly when the exact ratio of heads
  to flips is at a distance below one thousandth from one half (the comparison is strict);
  with 100000 flips, the default, this is \<open>49900 < heads < 50100\<close>, both bounds
  excluded.\<close>

theorem perfect_balance_strict:
  assumes "coinflip_stats U seed_param flips_param = Inr r"
  shows "total r = (case flips_param of None \<Rightarrow> 100000 | Some f \<Rightarrow> f)
       \<and> (perfect_balance r
            \<longleftrightarrow> \<bar>of_int (heads r) / of_int (total r) - 1 / 2\<bar> < (1 / 1000 :: rat))
       \<and> (total r = 100000 \<longrightarrow>
            (perfect_balance r \<longleftrightarrow> 49900 < heads r \<and> heads r < 50100))"
proof -
  note int = perfect_balance_integer [OF assms]
  have "perfect_balance r
      \<longleftrightarrow> \<bar>of_int (heads r) / of_int (total r) - 1 / 2\<bar> < (1 / 1000 :: rat)"
    using int exact_comparison [OF coinflip_stats_fields(2) [OF assms], of "heads r"]
    by blast
  moreover have "perfect_balance r \<longleftrightarrow> 49900 < heads r \<and> heads r < 50100"
    if "total r = 100000"
    using int that by (simp add: abs_less_iff) linarith
  ultimately show ?thesis
    using coinflip_stats_fields(1) [OF assms] by blast
qed

lemma threshold_count:
  "count_heads (threshold_qkd k) n g h = Inr (h + int (min (g + n) k - min g k))"
proof (induction n arbitrary: g h)
  case 0
  then show ?case by simp
next
  case (Suc n)
  have nx: "next_chunk (threshold_qkd k) g = Inr ([if g < k then 1 else 0], Suc g)"
    by (simp add: threshold_qkd_def)
  have bit: "((if g < k then 1 else 0 :: byte) AND 1 \<noteq> 0) = (g < k)"
    by simp
  have "count_heads (threshold_qkd k) (Suc n) g h
      = count_heads (threshold_qkd k) n (Suc g) (if g < k then h + 1 else h)"
    by (simp only: count_heads.simps nx sum.case prod.case list.case bit)
  also have "\<dots> = Inr ((if g < k then h + 1 else h) + int (min (Suc g + n) k - min (Suc g) k))"
    by (rule Suc.IH)
  also have "(if g < k then h + 1 else h) + int (min (Suc g + n) k - min (Suc g) k)
      = h + int (min (g + Suc n) k - min g k)"
    by (auto simp: min_def)
  finally show ?case .
qed

lemma threshold_stats:
  assumes "k \<le> n" "1 \<le> n" "n \<le> 1000000"
  shows "\<exists>r. coinflip_stats (Some (threshold_qkd k)) (Some 0) (Some (int n)) = Inr r
           \<and> heads r = int k \<and> total r = int n"
proof -
  have "fresh (threshold_qkd k) = 0"
    by (simp add: threshold_qkd_def)
  moreover have "count_heads (threshold_qkd k) n 0 0 = Inr (int k)"
    using assms(1) by (simp add: threshold_count)
  ultimately show ?thesis
    using assms(2,3) by (simp add: coinflip_stats_def Let_def)
qed

theorem perfect_balance_strict_witness:
  "heads_and_balance (coinflip_stats (Some (threshold_qkd 50000)) (Some 0) None)
     = Some (50000, True)
 \<and> heads_and_balance (coinflip_stats (Some (threshold_qkd 50099)) (Some 0) (Some 100000))
     = Some (50099, True)"
proof -
  have "heads_and_balance (coinflip_stats (Some (threshold_qkd k)) (Some 0) flips_param)
      = Some (int k, 49900 < int k \<and> int k < 50100)"
    if k: "k \<le> 100000" and f: "flips_param = None \<or> flips_param = Some 100000"
    for k flips_param
  proof -
    from f have same: "coinflip_stats (Some (threshold_qkd k)) (Some 0) flips_param
        = coinflip_stats (Some (threshold_qkd k)) (Some 0) (Some 100000)"
      by (auto simp: coinflip_stats_def)
    from threshold_stats [of k 100000] k same
    obtain r where run: "coinflip_stats (Some (threshold_qkd k)) (Some 0) flips_param = Inr r"
      and r: "heads r = int k" "total r = 100000"
      by auto
    from perfect_balance_strict [OF run] r(2)
    have "perfect_balance r \<longleftrightarrow> 49900 < heads r \<and> heads r < 50100"
      by blast
    then show ?thesis
      by (simp add: heads_and_balance_def run r)
  qed
  from this [of 50000 None] this [of 50099 "Some 100000"] show ?thesis
    by simp
qed

text \<open>Claim C8, as stated, fails at the lower bound of its interval: with 100000 flips
  of which 49900 are heads the flag is false, although 49900 lies in the interval from
  49900 (included) to 50100 (excluded). At 49901 the flag is true, and at 50100 it is
  false.\<close>

theorem lower_bound_not_balanced:
  "heads_and_balance (coinflip_stats (Some (threshold_qkd 49900)) (Some 0) (Some 100000))
     = Some (49900, False)
 \<and> heads_and_balance (coinflip_stats (Some (threshold_qkd 49901)) (Some 0) (Some 100000))
     = Some (49901, True)
 \<and> heads_and_balance (coinflip_stats (Some (threshold_qkd 50100)) (Some 0) (Some 100000))
     = Some (50100, False)"
proof -
  have "heads_and_balance (coinflip_stats (Some (threshold_qkd k)) (Some 0) (Some 100000))
      = Some (int k, 1000 * \<bar>2 * int k - 100000\<bar> < 200000)" if "k \<le> 100000" for k
  proof -
    from threshold_stats [of k 100000] that
    obtain r where run: "coinflip_stats (Some (threshold_qkd k)) (Some 0) (Some 100000) = Inr r"
      and r: "heads r = int k" "total r = 100000"
      by auto
    from perfect_balance_integer [OF run] r
    have "perfect_balance r \<longleftrightarrow> 1000 * \<bar>2 * int k - 100000\<bar> < 200000"
      by simp
    then show ?thesis
      by (simp add: heads_and_balance_def run r)
  qed
  from this [of 49900] this [of 49901] this [of 50100] show ?thesis
    by simp
qed

end
